theory Spec2Isabelle
  imports Complex_Main "HOL-Library.Char_ord" "HOL-Library.List_Lexorder" "HOL-Library.Product_Lexorder"
begin

section \<open>Values, strings and records of the QA report pipeline\<close>

text \<open>
  The pipeline of \<^verbatim>\<open>QA_Report_Helper\<close> works on spreadsheet rows read into Python
  dictionaries. A cell value is \<^verbatim>\<open>None\<close>, a string, an integer, a \<^verbatim>\<open>date\<close> or a
  \<^verbatim>\<open>datetime\<close>. Floating point cells and booleans are not part of this model.
  Strings are ASCII text: the characters above 127 are neither letters, digits nor
  white space here.
\<close>

datatype date = Date (year: int) (month: int) (day: int)

datatype time_of_day = Time (hour: nat) (minute: nat) (second: nat) (microsecond: nat)

datatype pyval =
    PNone
  | PStr string
  | PInt int
  | PDate date
  | PDateTime date time_of_day

type_synonym row = "string \<rightharpoonup> pyval"

subsection \<open>Python string primitives\<close>

definition ord :: "char \<Rightarrow> nat" where
  "ord c = of_char c"

definition isspace :: "char \<Rightarrow> bool" where
  "isspace c = (let n = ord c in (9 \<le> n \<and> n \<le> 13) \<or> (28 \<le> n \<and> n \<le> 32))"

definition isdigit :: "char \<Rightarrow> bool" where
  "isdigit c = (let n = ord c in 48 \<le> n \<and> n \<le> 57)"

definition isupper :: "char \<Rightarrow> bool" where
  "isupper c = (let n = ord c in 65 \<le> n \<and> n \<le> 90)"

definition islower :: "char \<Rightarrow> bool" where
  "islower c = (let n = ord c in 97 \<le> n \<and> n \<le> 122)"

definition to_lower :: "char \<Rightarrow> char" where
  "to_lower c = (if isupper c then char_of (ord c + 32) else c)"

definition to_upper :: "char \<Rightarrow> char" where
  "to_upper c = (if islower c then char_of (ord c - 32) else c)"

definition lower :: "string \<Rightarrow> string" where
  "lower s = map to_lower s"

text \<open>\<^verbatim>\<open>str.strip()\<close>: white space is dropped at both ends.\<close>

definition lstrip :: "string \<Rightarrow> string" where
  "lstrip s = dropWhile isspace s"

definition rstrip :: "string \<Rightarrow> string" where
  "rstrip s = rev (dropWhile isspace (rev s))"

definition strip :: "string \<Rightarrow> string" where
  "strip s = rstrip (lstrip s)"

text \<open>
  \<^verbatim>\<open>str.title()\<close>: a letter that follows a letter is lower-cased, any other letter is
  upper-cased, every other character is kept.
\<close>

fun title_from :: "bool \<Rightarrow> string \<Rightarrow> string" where
  "title_from prev [] = []"
| "title_from prev (c # cs) =
     (if isupper c \<or> islower c
      then (if prev then to_lower c else to_upper c) # title_from True cs
      else c # title_from False cs)"

definition title :: "string \<Rightarrow> string" where
  "title s = title_from False s"

definition startswith :: "string \<Rightarrow> string \<Rightarrow> bool" where
  "startswith s p = (take (length p) s = p)"

subsection \<open>\<^verbatim>\<open>str(value)\<close>\<close>

definition digit_char :: "nat \<Rightarrow> char" where
  "digit_char n = char_of (48 + n mod 10)"

fun str_nat :: "nat \<Rightarrow> string" where
  "str_nat n = (if n < 10 then [digit_char n] else str_nat (n div 10) @ [digit_char n])"

declare str_nat.simps [simp del]

definition str_int :: "int \<Rightarrow> string" where
  "str_int i = (if i < 0 then CHR ''-'' # str_nat (nat (- i)) else str_nat (nat i))"

text \<open>\<^verbatim>\<open>'%0*d'\<close>: zero padding on the left up to a width.\<close>

definition zfill :: "nat \<Rightarrow> string \<Rightarrow> string" where
  "zfill w s = replicate (w - length s) CHR ''0'' @ s"

definition str_date :: "date \<Rightarrow> string" where
  "str_date d = zfill 4 (str_int (year d)) @ ''-'' @ zfill 2 (str_int (month d))
                @ ''-'' @ zfill 2 (str_int (day d))"

definition str_time :: "time_of_day \<Rightarrow> string" where
  "str_time t = zfill 2 (str_nat (hour t)) @ '':'' @ zfill 2 (str_nat (minute t))
                @ '':'' @ zfill 2 (str_nat (second t))
                @ (if microsecond t = 0 then [] else ''.'' @ zfill 6 (str_nat (microsecond t)))"

fun py_str :: "pyval \<Rightarrow> string" where
  "py_str PNone = ''None''"
| "py_str (PStr s) = s"
| "py_str (PInt i) = str_int i"
| "py_str (PDate d) = str_date d"
| "py_str (PDateTime d t) = str_date d @ '' '' @ str_time t"

subsection \<open>Dictionary access\<close>

text \<open>\<^verbatim>\<open>record.get(key)\<close> and \<^verbatim>\<open>record.get(key, default)\<close>.\<close>

definition get :: "row \<Rightarrow> string \<Rightarrow> pyval" where
  "get r k = (case r k of None \<Rightarrow> PNone | Some v \<Rightarrow> v)"

definition get_default :: "row \<Rightarrow> string \<Rightarrow> pyval \<Rightarrow> pyval" where
  "get_default r k d = (case r k of None \<Rightarrow> d | Some v \<Rightarrow> v)"

text \<open>\<^verbatim>\<open>DataProcessor.normalize\<close>.\<close>

definition normalize :: "pyval \<Rightarrow> string" where
  "normalize v = (if v \<noteq> PNone then lower (strip (py_str v)) else '''')"


section \<open>Calendar dates\<close>

text \<open>Python compares dates by year, then month, then day.\<close>

instantiation date :: linorder
begin

definition less_eq_date :: "date \<Rightarrow> date \<Rightarrow> bool" where
  "less_eq_date a b =
     (year a < year b \<or> (year a = year b \<and>
        (month a < month b \<or> (month a = month b \<and> day a \<le> day b))))"

definition less_date :: "date \<Rightarrow> date \<Rightarrow> bool" where
  "less_date a b =
     (year a < year b \<or> (year a = year b \<and>
        (month a < month b \<or> (month a = month b \<and> day a < day b))))"

instance
  by standard (auto simp: less_eq_date_def less_date_def date.expand)

end

definition is_leap :: "int \<Rightarrow> bool" where
  "is_leap y = (y mod 4 = 0 \<and> (y mod 100 \<noteq> 0 \<or> y mod 400 = 0))"

definition days_in_month :: "int \<Rightarrow> int \<Rightarrow> int" where
  "days_in_month y m =
     (if m = 2 then (if is_leap y then 29 else 28)
      else if m = 4 \<or> m = 6 \<or> m = 9 \<or> m = 11 then 30 else 31)"

text \<open>The constructor \<^verbatim>\<open>date(year, month, day)\<close> raises ValueError outside this range.\<close>

definition valid_date :: "int \<Rightarrow> int \<Rightarrow> int \<Rightarrow> bool" where
  "valid_date y m d =
     (1 \<le> y \<and> y \<le> 9999 \<and> 1 \<le> m \<and> m \<le> 12 \<and> 1 \<le> d \<and> d \<le> days_in_month y m)"

section \<open>\<^verbatim>\<open>datetime.strptime\<close>\<close>

text \<open>
  \<^verbatim>\<open>strptime\<close> turns the format into a regular expression, matches it at the start of
  the text, and raises ValueError when nothing matches or when text is left over. The
  matcher below returns every way a directive can match, in the order in which the
  regular expression tries its alternatives; the head of the list is the match found.
\<close>

datatype directive = DY | Dm | Dd | Db | DB | Dy | DH | DM | DS | Lit char | Spaces | Bad

definition directive_of :: "char \<Rightarrow> directive" where
  "directive_of c =
     (if c = CHR ''Y'' then DY else if c = CHR ''m'' then Dm else if c = CHR ''d'' then Dd
      else if c = CHR ''b'' then Db else if c = CHR ''B'' then DB else if c = CHR ''y'' then Dy
      else if c = CHR ''H'' then DH else if c = CHR ''M'' then DM else if c = CHR ''S'' then DS
      else Bad)"

text \<open>\<^verbatim>\<open>TimeRE.pattern\<close>: a run of white space becomes \<^verbatim>\<open>\s+\<close>, \<^verbatim>\<open>%x\<close> a directive.\<close>

fun compile_format :: "bool \<Rightarrow> string \<Rightarrow> directive list" where
  "compile_format sp [] = []"
| "compile_format sp [c] =
     (if c = CHR ''%'' then [Bad] else if isspace c then (if sp then [] else [Spaces]) else [Lit c])"
| "compile_format sp (c # x # cs) =
     (if c = CHR ''%'' then directive_of x # compile_format False cs
      else if isspace c then (if sp then compile_format True (x # cs)
                              else Spaces # compile_format True (x # cs))
      else Lit c # compile_format False (x # cs))"

record tm =
  tm_year :: int
  tm_mon :: int
  tm_mday :: int
  tm_hour :: int
  tm_min :: int
  tm_sec :: int

definition tm0 :: tm where
  "tm0 = \<lparr>tm_year = 1900, tm_mon = 1, tm_mday = 1, tm_hour = 0, tm_min = 0, tm_sec = 0\<rparr>"

definition one_of :: "string \<Rightarrow> char \<Rightarrow> bool" where
  "one_of cs c = (c \<in> set cs)"

text \<open>One or two characters of given classes at the start of the text.\<close>

definition m1 :: "(char \<Rightarrow> bool) \<Rightarrow> string \<Rightarrow> (string \<times> string) list" where
  "m1 P s = (case s of a # r \<Rightarrow> (if P a then [([a], r)] else []) | _ \<Rightarrow> [])"

definition m2 :: "(char \<Rightarrow> bool) \<Rightarrow> (char \<Rightarrow> bool) \<Rightarrow> string \<Rightarrow> (string \<times> string) list" where
  "m2 P Q s = (case s of a # b # r \<Rightarrow> (if P a \<and> Q b then [([a, b], r)] else []) | _ \<Rightarrow> [])"

definition re_d :: "string \<Rightarrow> (string \<times> string) list" where
  "re_d s = m2 (one_of ''3'') (one_of ''01'') s @ m2 (one_of ''12'') isdigit s
            @ m2 (one_of ''0'') (one_of ''123456789'') s @ m1 (one_of ''123456789'') s
            @ m2 (one_of '' '') (one_of ''123456789'') s"

definition re_m :: "string \<Rightarrow> (string \<times> string) list" where
  "re_m s = m2 (one_of ''1'') (one_of ''012'') s @ m2 (one_of ''0'') (one_of ''123456789'') s
            @ m1 (one_of ''123456789'') s"

definition re_Y :: "string \<Rightarrow> (string \<times> string) list" where
  "re_Y s = (if 4 \<le> length s \<and> list_all isdigit (take 4 s) then [(take 4 s, drop 4 s)] else [])"

definition re_y :: "string \<Rightarrow> (string \<times> string) list" where
  "re_y s = m2 isdigit isdigit s"

definition re_H :: "string \<Rightarrow> (string \<times> string) list" where
  "re_H s = m2 (one_of ''2'') (one_of ''0123'') s @ m2 (one_of ''01'') isdigit s @ m1 isdigit s"

definition re_M :: "string \<Rightarrow> (string \<times> string) list" where
  "re_M s = m2 (one_of ''012345'') isdigit s @ m1 isdigit s"

definition re_S :: "string \<Rightarrow> (string \<times> string) list" where
  "re_S s = m2 (one_of ''6'') (one_of ''01'') s @ m2 (one_of ''012345'') isdigit s @ m1 isdigit s"

text \<open>The month names of the C locale, in the order of the regular expression.\<close>

definition a_month :: "string list" where
  "a_month = [''jan'', ''feb'', ''mar'', ''apr'', ''may'', ''jun'',
              ''jul'', ''aug'', ''sep'', ''oct'', ''nov'', ''dec'']"

definition f_month :: "string list" where
  "f_month = [''january'', ''february'', ''march'', ''april'', ''may'', ''june'', ''july'',
              ''august'', ''september'', ''october'', ''november'', ''december'']"

definition f_month_re :: "string list" where
  "f_month_re = [''september'', ''february'', ''november'', ''december'', ''january'',
                 ''october'', ''august'', ''march'', ''april'', ''june'', ''july'', ''may'']"

text \<open>A name of the list at the start of the text, letter case ignored.\<close>

definition re_names :: "string list \<Rightarrow> string \<Rightarrow> (string \<times> string) list" where
  "re_names names s =
     concat (map (\<lambda>n. if lower (take (length n) s) = n
                       then [(take (length n) s, drop (length n) s)] else []) names)"

definition re_lit :: "char \<Rightarrow> string \<Rightarrow> (string \<times> string) list" where
  "re_lit c s = m1 (\<lambda>a. to_lower a = to_lower c) s"

text \<open>\<^verbatim>\<open>\s+\<close> is greedy: the longest run first, then the shorter ones.\<close>

definition re_spaces :: "string \<Rightarrow> (string \<times> string) list" where
  "re_spaces s =
     (let n = length (takeWhile isspace s)
      in map (\<lambda>k. (take k s, drop k s)) (rev [1..<Suc n]))"

text \<open>\<^verbatim>\<open>int(text)\<close> on a run of digits, with the leading blank \<^verbatim>\<open>%d\<close> allows.\<close>

definition int_of_digits :: "string \<Rightarrow> int" where
  "int_of_digits s = foldl (\<lambda>acc c. 10 * acc + int (ord c - 48)) 0 (filter isdigit s)"

text \<open>\<^verbatim>\<open>list.index\<close> on the month names, counted from 1.\<close>

fun index_from :: "nat \<Rightarrow> string list \<Rightarrow> string \<Rightarrow> nat" where
  "index_from i [] n = i"
| "index_from i (x # xs) n = (if x = n then i else index_from (Suc i) xs n)"

definition month_index :: "string list \<Rightarrow> string \<Rightarrow> int" where
  "month_index names n = int (index_from 1 names (lower n))"

definition two_digit_year :: "int \<Rightarrow> int" where
  "two_digit_year y = (if y \<le> 68 then y + 2000 else y + 1900)"

definition match_directive :: "directive \<Rightarrow> string \<Rightarrow> tm \<Rightarrow> (tm \<times> string) list" where
  "match_directive d s t =
     (case d of
        DY \<Rightarrow> map (\<lambda>(g, r). (t\<lparr>tm_year := int_of_digits g\<rparr>, r)) (re_Y s)
      | Dy \<Rightarrow> map (\<lambda>(g, r). (t\<lparr>tm_year := two_digit_year (int_of_digits g)\<rparr>, r)) (re_y s)
      | Dm \<Rightarrow> map (\<lambda>(g, r). (t\<lparr>tm_mon := int_of_digits g\<rparr>, r)) (re_m s)
      | Db \<Rightarrow> map (\<lambda>(g, r). (t\<lparr>tm_mon := month_index a_month g\<rparr>, r)) (re_names a_month s)
      | DB \<Rightarrow> map (\<lambda>(g, r). (t\<lparr>tm_mon := month_index f_month g\<rparr>, r)) (re_names f_month_re s)
      | Dd \<Rightarrow> map (\<lambda>(g, r). (t\<lparr>tm_mday := int_of_digits g\<rparr>, r)) (re_d s)
      | DH \<Rightarrow> map (\<lambda>(g, r). (t\<lparr>tm_hour := int_of_digits g\<rparr>, r)) (re_H s)
      | DM \<Rightarrow> map (\<lambda>(g, r). (t\<lparr>tm_min := int_of_digits g\<rparr>, r)) (re_M s)
      | DS \<Rightarrow> map (\<lambda>(g, r). (t\<lparr>tm_sec := int_of_digits g\<rparr>, r)) (re_S s)
      | Lit c \<Rightarrow> map (\<lambda>(g, r). (t, r)) (re_lit c s)
      | Spaces \<Rightarrow> map (\<lambda>(g, r). (t, r)) (re_spaces s)
      | Bad \<Rightarrow> [])"

fun match_seq :: "directive list \<Rightarrow> string \<Rightarrow> tm \<Rightarrow> (tm \<times> string) list" where
  "match_seq [] s t = [(t, s)]"
| "match_seq (d # ds) s t = concat (map (\<lambda>(t', r). match_seq ds r t') (match_directive d s t))"

text \<open>
  \<^verbatim>\<open>datetime.strptime(text, fmt).date()\<close>; \<open>None\<close> stands for the ValueError. The
  \<^verbatim>\<open>datetime\<close> constructor refuses a second of 60 or 61, which the pattern of
  \<^verbatim>\<open>%S\<close> lets through.
\<close>

definition strptime_date :: "string \<Rightarrow> string \<Rightarrow> date option" where
  "strptime_date s fmt =
     (case match_seq (compile_format False fmt) s tm0 of
        [] \<Rightarrow> None
      | (t, r) # _ \<Rightarrow>
          if r \<noteq> [] then None
          else if valid_date (tm_year t) (tm_mon t) (tm_mday t) \<and> tm_sec t \<le> 59
          then Some (Date (tm_year t) (tm_mon t) (tm_mday t))
          else None)"

section \<open>\<^verbatim>\<open>DataProcessor.parse_date\<close>\<close>

definition date_formats :: "string list" where
  "date_formats =
     [''%Y-%m-%d %H:%M:%S'',
      ''%Y-%m-%d'',
      ''%d-%b-%y'',
      ''%d-%B-%y'',
      ''%d-%b-%Y'',
      ''%d-%B-%Y'',
      ''%d/%b/%y'',
      ''%d/%B/%y'',
      ''%d/%b/%Y'',
      ''%d/%B/%Y'',
      ''%d.%b.%y'',
      ''%d.%B.%y'',
      ''%d-%m-%Y'',
      ''%d/%m/%Y'',
      ''%d-%m-%y'',
      ''%d/%m/%y'',
      ''%m/%d/%Y'',
      ''%m-%d-%Y'',
      ''%m/%d/%y'',
      ''%m-%d-%y'']"

text \<open>The loop over the formats: the first format that parses wins.\<close>

fun try_formats :: "string list \<Rightarrow> string \<Rightarrow> date option" where
  "try_formats [] s = None"
| "try_formats (fmt # fmts) s =
     (case strptime_date s fmt of Some d \<Rightarrow> Some d | None \<Rightarrow> try_formats fmts s)"

text \<open>\<^verbatim>\<open>date_str.split(' ')[0]\<close>.\<close>

definition first_word :: "string \<Rightarrow> string" where
  "first_word s = takeWhile (\<lambda>c. c \<noteq> CHR '' '') s"

text \<open>\<^verbatim>\<open>date_str.replace('.', '').replace('-', '').isdigit()\<close>.\<close>

definition looks_numeric :: "string \<Rightarrow> bool" where
  "looks_numeric s =
     (let t = filter (\<lambda>c. c \<noteq> CHR ''-'') (filter (\<lambda>c. c \<noteq> CHR ''.'') s)
      in t \<noteq> [] \<and> list_all isdigit t)"

text \<open>
  The last resort of \<^verbatim>\<open>parse_date\<close> reads the text as a spreadsheet serial number with
  floating point arithmetic (\<^verbatim>\<open>float\<close>, \<^verbatim>\<open>timedelta\<close>). That arithmetic is the
  parameter \<open>serial\<close>: the date it yields for a text, or \<open>None\<close> where it raises
  ValueError or OverflowError. Every statement below holds for every \<open>serial\<close>.
\<close>

definition parse_date_str :: "(string \<Rightarrow> date option) \<Rightarrow> string \<Rightarrow> date option" where
  "parse_date_str serial date_str =
     (case (if CHR '' '' \<in> set date_str \<and> CHR '':'' \<in> set date_str
            then strptime_date (first_word date_str) ''%Y-%m-%d'' else None) of
        Some d \<Rightarrow> Some d
      | None \<Rightarrow>
          (case try_formats date_formats date_str of
             Some d \<Rightarrow> Some d
           | None \<Rightarrow> if looks_numeric date_str then serial date_str else None))"

definition parse_date :: "(string \<Rightarrow> date option) \<Rightarrow> pyval \<Rightarrow> date option" where
  "parse_date serial date_value =
     (if date_value = PNone \<or> strip (py_str date_value) = []
         \<or> lower (strip (py_str date_value)) = ''nan''
      then None
      else case date_value of
             PDateTime d t \<Rightarrow> Some d
           | PDate d \<Rightarrow> Some d
           | _ \<Rightarrow> parse_date_str serial (strip (py_str date_value)))"

section \<open>Filtering by date\<close>

text \<open>
  \<open>date_column\<close> is the attribute \<^verbatim>\<open>self.date_column\<close>, \<open>None\<close> until a column is
  chosen. \<^verbatim>\<open>not self.date_column\<close> holds for \<open>None\<close> and for the empty name.
\<close>

definition column_unset :: "string option \<Rightarrow> bool" where
  "column_unset date_column = (case date_column of None \<Rightarrow> True | Some c \<Rightarrow> c = [])"

text \<open>\<^verbatim>\<open>self.parse_date(record.get(self.date_column))\<close>, for a column that is set.\<close>

definition record_date :: "(string \<Rightarrow> date option) \<Rightarrow> string option \<Rightarrow> row \<Rightarrow> date option" where
  "record_date serial date_column r =
     (case date_column of None \<Rightarrow> None | Some c \<Rightarrow> parse_date serial (get r c))"

definition filter_records_by_date ::
  "(string \<Rightarrow> date option) \<Rightarrow> string option \<Rightarrow> row list \<Rightarrow> date \<Rightarrow> row list" where
  "filter_records_by_date serial date_column records target_date =
     (if column_unset date_column then []
      else filter (\<lambda>r. case record_date serial date_column r of
                          None \<Rightarrow> False | Some p \<Rightarrow> p = target_date) records)"

text \<open>The first loop of \<^verbatim>\<open>filter_records_mtd\<close>: the earliest parsed date so far.\<close>

fun earliest_date ::
  "(string \<Rightarrow> date option) \<Rightarrow> string option \<Rightarrow> row list \<Rightarrow> date option \<Rightarrow> date option" where
  "earliest_date serial date_column [] earliest = earliest"
| "earliest_date serial date_column (r # rs) earliest =
     (case record_date serial date_column r of
        None \<Rightarrow> earliest_date serial date_column rs earliest
      | Some p \<Rightarrow>
          earliest_date serial date_column rs
            (case earliest of
               None \<Rightarrow> Some p
             | Some e \<Rightarrow> if p < e then Some p else Some e))"

definition filter_records_mtd ::
  "(string \<Rightarrow> date option) \<Rightarrow> string option \<Rightarrow> row list \<Rightarrow> date \<Rightarrow> row list" where
  "filter_records_mtd serial date_column records selected_date =
     (if column_unset date_column then []
      else case earliest_date serial date_column records None of
             None \<Rightarrow> []
           | Some e \<Rightarrow>
               let mtd_start = Date (year e) (month e) 1
               in filter (\<lambda>r. case record_date serial date_column r of
                                 None \<Rightarrow> False
                               | Some p \<Rightarrow> mtd_start \<le> p \<and> p \<le> selected_date) records)"

section \<open>Records as objects\<close>

text \<open>
  \<^verbatim>\<open>clean_data\<close> and \<^verbatim>\<open>apply_corrections\<close> copy dictionaries and write into the
  copies, so the records live in a store: an address is an index into the list of all
  dictionaries allocated so far, and a list of records is a list of addresses.
  \<^verbatim>\<open>record.copy()\<close> allocates a new dictionary with the same items.
\<close>

type_synonym addr = nat
type_synonym store = "row list"

definition copy :: "store \<Rightarrow> addr \<Rightarrow> store \<times> addr" where
  "copy h a = (h @ [h ! a], length h)"

text \<open>\<^verbatim>\<open>d[key] = value\<close> on the dictionary at an address.\<close>

definition set_item :: "store \<Rightarrow> addr \<Rightarrow> string \<Rightarrow> pyval \<Rightarrow> store" where
  "set_item h a k v = h[a := (h ! a)(k \<mapsto> v)]"

definition rows_of :: "store \<Rightarrow> addr list \<Rightarrow> row list" where
  "rows_of h as = map (\<lambda>a. h ! a) as"

section \<open>\<^verbatim>\<open>DataProcessor.clean_data\<close>\<close>

text \<open>\<^verbatim>\<open>normalize_dq_reason\<close>, called on the string \<^verbatim>\<open>cleaned_value\<close>.\<close>

definition normalize_dq_reason :: "string \<Rightarrow> string" where
  "normalize_dq_reason dq_reason =
     (if dq_reason = [] \<or> strip dq_reason = [] \<or> strip dq_reason = ''-'' then dq_reason
      else title (strip dq_reason))"

text \<open>The body of the loop over the three key fields: the value stored for a field.\<close>

definition clean_value :: "string \<Rightarrow> pyval \<Rightarrow> pyval" where
  "clean_value field v =
     (if v = PNone \<or> strip (py_str v) = [] \<or> strip (py_str v) = ''-''
      then (if field = ''Lead Status'' then PStr [] else PStr ''(Blank)'')
      else (let cleaned_value = strip (py_str v)
            in if field = ''DQ Reason'' then PStr (normalize_dq_reason cleaned_value)
               else PStr cleaned_value))"

fun clean_fields :: "store \<Rightarrow> addr \<Rightarrow> string list \<Rightarrow> store" where
  "clean_fields h c [] = h"
| "clean_fields h c (field # rest) =
     clean_fields (set_item h c field (clean_value field (get (h ! c) field))) c rest"

fun clean_data :: "store \<Rightarrow> addr list \<Rightarrow> store \<times> addr list" where
  "clean_data h [] = (h, [])"
| "clean_data h (r # records) =
     (let (h1, cleaned_record) = copy h r;
          h2 = clean_fields h1 cleaned_record [''Lead Status'', ''Agent Name'', ''DQ Reason''];
          (h3, cleaned_records) = clean_data h2 records
      in (h3, cleaned_record # cleaned_records))"

section \<open>\<^verbatim>\<open>DataValidator\<close>\<close>

definition ACCEPTED_LEAD_STATUS :: "string list" where
  "ACCEPTED_LEAD_STATUS = [''Qualified'', ''Disqualified'']"

text \<open>
  The correction map is a dictionary from original values to replacements, kept as a
  list of items; the first item of a key is its entry. \<^verbatim>\<open>apply_corrections\<close> also
  keeps a copy of the map in \<^verbatim>\<open>self.corrections_applied\<close>, which only
  \<^verbatim>\<open>get_correction_summary\<close> reads; that attribute is left out.
\<close>

type_synonym corrections = "(pyval \<times> pyval) list"

fun corrections_loop :: "store \<Rightarrow> addr list \<Rightarrow> corrections \<Rightarrow> store \<times> addr list \<times> nat" where
  "corrections_loop h [] cm = (h, [], 0)"
| "corrections_loop h (r # records) cm =
     (let (h1, corrected_record) = copy h r;
          original_status = get (h ! r) ''Lead Status'';
          (h2, n) = (case map_of cm original_status of
                       Some v \<Rightarrow> (set_item h1 corrected_record ''Lead Status'' v, 1)
                     | None \<Rightarrow> (h1, 0));
          (h3, corrected_records, correction_count) = corrections_loop h2 records cm
      in (h3, corrected_record # corrected_records, n + correction_count))"

definition apply_corrections :: "store \<Rightarrow> addr list \<Rightarrow> corrections \<Rightarrow> store \<times> addr list \<times> nat" where
  "apply_corrections h records cm =
     (if cm = [] then (h, records, 0) else corrections_loop h records cm)"

text \<open>Truth value of a Python value, as \<^verbatim>\<open>not status_text\<close> tests it.\<close>

fun truthy :: "pyval \<Rightarrow> bool" where
  "truthy PNone = False"
| "truthy (PStr s) = (s \<noteq> [])"
| "truthy (PInt i) = (i \<noteq> 0)"
| "truthy (PDate d) = True"
| "truthy (PDateTime d t) = True"

definition qualified_patterns :: "string list" where
  "qualified_patterns = [''qualified'', ''qualify'', ''qual'', ''q'']"

definition disqualified_patterns :: "string list" where
  "disqualified_patterns = [''disqualified'', ''disqualify'', ''disqual'', ''dq'', ''dis'']"

definition normalize_lead_status :: "pyval \<Rightarrow> pyval" where
  "normalize_lead_status status_text =
     (if \<not> truthy status_text \<or> strip (py_str status_text) = [] then status_text
      else (let status_lower = strip (lower (py_str status_text))
            in if list_ex (\<lambda>pattern. pattern = status_lower \<or> startswith status_lower pattern)
                    qualified_patterns
               then PStr ''Qualified''
               else if list_ex (\<lambda>pattern. pattern = status_lower \<or> startswith status_lower pattern)
                         disqualified_patterns
               then PStr ''Disqualified''
               else status_text))"

text \<open>\<^verbatim>\<open>Counter\<close>: the keys in the order of their first occurrence, with their counts.\<close>

fun counter_add :: "'k \<Rightarrow> ('k \<times> nat) list \<Rightarrow> ('k \<times> nat) list" where
  "counter_add k [] = [(k, 1)]"
| "counter_add k ((k', n) # xs) =
     (if k' = k then (k', n + 1) # xs else (k', n) # counter_add k xs)"

fun status_counts :: "row list \<Rightarrow> (pyval \<times> nat) list \<Rightarrow> (pyval \<times> nat) list" where
  "status_counts [] cnt = cnt"
| "status_counts (r # records) cnt =
     (let status = get r ''Lead Status''
      in status_counts records (if status \<noteq> PNone then counter_add status cnt else cnt))"

text \<open>
  \<^verbatim>\<open>difflib.get_close_matches(word, possibilities, n, cutoff)\<close>: the possibilities that
  score at least the cutoff, the \<open>n\<close> best first. The similarity score of the standard
  library, \<^verbatim>\<open>SequenceMatcher(None, x, word).ratio()\<close>, is the parameter \<open>ratio\<close>.
\<close>

definition get_close_matches ::
  "(string \<Rightarrow> string \<Rightarrow> rat) \<Rightarrow> string \<Rightarrow> string list \<Rightarrow> nat \<Rightarrow> rat \<Rightarrow> string list" where
  "get_close_matches ratio word possibilities n cutoff =
     map snd (take n (rev (sort
       (map (\<lambda>x. (ratio x word, x)) (filter (\<lambda>x. cutoff \<le> ratio x word) possibilities)))))"

record issue =
  original :: pyval
  count :: nat
  auto_suggestion :: "pyval option"
  fuzzy_matches :: "string list"
  valid_options :: "string list"

text \<open>
  \<open>valid_list\<close> is \<^verbatim>\<open>list(valid_statuses)\<close>: the accepted values in the order in which
  the set happens to iterate.
\<close>

definition make_issue ::
  "(string \<Rightarrow> string \<Rightarrow> rat) \<Rightarrow> string list \<Rightarrow> pyval \<Rightarrow> nat \<Rightarrow> issue" where
  "make_issue ratio valid_list status cnt =
     (let normalized = normalize_lead_status status
      in \<lparr>original = status,
          count = cnt,
          auto_suggestion =
            (if normalized \<noteq> status \<and> normalized \<in> PStr ` set ACCEPTED_LEAD_STATUS
             then Some normalized else None),
          fuzzy_matches = get_close_matches ratio (py_str status) valid_list 2 (6 / 10),
          valid_options = valid_list\<rparr>)"

fun issues_loop ::
  "(string \<Rightarrow> string \<Rightarrow> rat) \<Rightarrow> string list \<Rightarrow> (pyval \<times> nat) list \<Rightarrow> issue list" where
  "issues_loop ratio valid_list [] = []"
| "issues_loop ratio valid_list ((status, cnt) # items) =
     (if status \<notin> PStr ` set ACCEPTED_LEAD_STATUS
      then make_issue ratio valid_list status cnt # issues_loop ratio valid_list items
      else issues_loop ratio valid_list items)"

text \<open>\<^verbatim>\<open>auto_suggestions\<close>: the issues that carry a suggestion, as a dictionary.\<close>

definition find_lead_status_issues ::
  "(string \<Rightarrow> string \<Rightarrow> rat) \<Rightarrow> string list \<Rightarrow> row list \<Rightarrow> issue list \<times> (pyval \<times> pyval) list" where
  "find_lead_status_issues ratio valid_list records =
     (let issues = issues_loop ratio valid_list (status_counts records [])
      in (issues,
          List.map_filter (\<lambda>i. case auto_suggestion i of
                                  None \<Rightarrow> None | Some s \<Rightarrow> Some (original i, s)) issues))"

section \<open>\<^verbatim>\<open>DataProcessor._parse_sheet\<close>\<close>

text \<open>
  A worksheet is the list of its rows, as \<^verbatim>\<open>iter_rows(values_only=True)\<close> yields
  them, top row first; \<^verbatim>\<open>max_row\<close> is their number. A row is the list of its cells.
\<close>

type_synonym worksheet = "pyval list list"

definition has_value :: "pyval list \<Rightarrow> bool" where
  "has_value r = list_ex (\<lambda>cell. cell \<noteq> PNone) r"

definition make_headers :: "pyval list \<Rightarrow> string list" where
  "make_headers hrow =
     map (\<lambda>(i, h). if h \<noteq> PNone then strip (py_str h) else ''Column_'' @ str_nat (i + 1))
         (enumerate 0 hrow)"

fun make_record :: "row \<Rightarrow> (nat \<times> string) list \<Rightarrow> pyval list \<Rightarrow> row" where
  "make_record rec [] r = rec"
| "make_record rec ((i, header) # hs) r =
     make_record (rec(header \<mapsto> (if i < length r then r ! i else PNone))) hs r"

fun records_loop :: "string list \<Rightarrow> string \<Rightarrow> (nat \<times> pyval list) list \<Rightarrow> row list" where
  "records_loop headers sheet_type [] = []"
| "records_loop headers sheet_type ((row_idx, r) # rest) =
     (if \<not> has_value r then records_loop headers sheet_type rest
      else ((make_record Map.empty (enumerate 0 headers) r)
              (''_row_number'' \<mapsto> PInt (int row_idx), ''_sheet_name'' \<mapsto> PStr sheet_type))
           # records_loop headers sheet_type rest)"

definition parse_sheet :: "worksheet \<Rightarrow> string \<Rightarrow> string list \<times> row list" where
  "parse_sheet ws sheet_type =
     (if length ws < 2 then ([], [])
      else case filter has_value ws of
             [] \<Rightarrow> ([], [])
           | hrow # rest \<Rightarrow>
               (let headers = make_headers hrow
                in (headers, records_loop headers sheet_type (enumerate 2 rest))))"

section \<open>\<^verbatim>\<open>ReportGenerator\<close>\<close>

text \<open>
  A report is a list of rows of cells. The rates are fractions of two counts; the model
  keeps them exact. A report shows a rate as a whole percentage, \<^verbatim>\<open>f"{rate:.0%}"\<close>,
  which rounds a floating point number: that formatting is the parameter \<open>percent\<close>.
\<close>

type_synonym report = "pyval list list"

definition lead_status :: "row \<Rightarrow> string" where
  "lead_status r = normalize (get_default r ''Lead Status'' (PStr []))"

definition generate_combined_qa_report :: "row list \<Rightarrow> row list \<Rightarrow> report" where
  "generate_combined_qa_report date_records mtd_records =
     (let daily_total = length date_records;
          daily_qualified = length (filter (\<lambda>r. lead_status r = ''qualified'') date_records);
          mtd_total = length mtd_records;
          mtd_qualified = length (filter (\<lambda>r. lead_status r = ''qualified'') mtd_records)
      in [[PStr ''MTD PRE QA'', PStr ''MTD POST QA'', PStr ''PRE QA'', PStr ''POST QA''],
          [PInt (int mtd_total), PInt (int mtd_qualified),
           PInt (int daily_total), PInt (int daily_qualified)]])"

subsection \<open>Agent breakdown\<close>

text \<open>
  \<^verbatim>\<open>agent_data\<close>: for every agent met, in the order of the first record counted, the
  numbers of qualified and of disqualified records.
\<close>

type_synonym agent_data = "(pyval \<times> nat \<times> nat) list"

definition bump :: "string \<Rightarrow> nat \<times> nat \<Rightarrow> nat \<times> nat" where
  "bump status c = (if status = ''qualified'' then (fst c + 1, snd c) else (fst c, snd c + 1))"

fun agent_add :: "pyval \<Rightarrow> string \<Rightarrow> agent_data \<Rightarrow> agent_data" where
  "agent_add agent status [] = [(agent, bump status (0, 0))]"
| "agent_add agent status ((a, c) # xs) =
     (if a = agent then (a, bump status c) # xs else (a, c) # agent_add agent status xs)"

fun agent_loop :: "row list \<Rightarrow> agent_data \<Rightarrow> agent_data" where
  "agent_loop [] ad = ad"
| "agent_loop (r # records) ad =
     (let agent = get_default r ''Agent Name'' (PStr ''(Blank)'');
          status = lead_status r
      in agent_loop records
           (if status = ''qualified'' \<or> status = ''disqualified''
            then agent_add agent status ad else ad))"

record agent_row =
  ar_agent :: pyval
  ar_disqualified :: nat
  ar_qualified :: nat
  ar_total :: nat
  ar_error :: rat

definition agent_row_of :: "pyval \<times> nat \<times> nat \<Rightarrow> agent_row" where
  "agent_row_of item =
     (let agent = fst item; qualified = fst (snd item); disqualified = snd (snd item);
          grand_total = qualified + disqualified;
          error_pct = (if grand_total > 0 then of_nat disqualified / of_nat grand_total else 0)
      in \<lparr>ar_agent = agent, ar_disqualified = disqualified, ar_qualified = qualified,
          ar_total = grand_total, ar_error = error_pct\<rparr>)"

text \<open>\<^verbatim>\<open>sort(key=..., reverse=True)\<close> is stable: rows of equal rate keep their order.\<close>

definition sort_desc :: "('a \<Rightarrow> rat) \<Rightarrow> 'a list \<Rightarrow> 'a list" where
  "sort_desc key xs = sort_key (\<lambda>x. - key x) xs"

definition agent_grand_total :: "agent_row list \<Rightarrow> agent_row" where
  "agent_grand_total rows =
     (let sum_disqualified = sum_list (map ar_disqualified rows);
          sum_qualified = sum_list (map ar_qualified rows);
          sum_total = sum_list (map ar_total rows);
          sum_error_pct = (if sum_total > 0 then of_nat sum_disqualified / of_nat sum_total else 0)
      in \<lparr>ar_agent = PStr ''Grand Total'', ar_disqualified = sum_disqualified,
          ar_qualified = sum_qualified, ar_total = sum_total, ar_error = sum_error_pct\<rparr>)"

text \<open>\<^verbatim>\<open>agent_rows\<close> as it stands before the rows are formatted for display.\<close>

definition agent_rows :: "row list \<Rightarrow> agent_row list" where
  "agent_rows records =
     (let rows = sort_desc ar_error (map agent_row_of (agent_loop records []))
      in if rows \<noteq> [] then rows @ [agent_grand_total rows] else rows)"

definition agent_display :: "(rat \<Rightarrow> string) \<Rightarrow> agent_row \<Rightarrow> pyval list" where
  "agent_display percent r =
     [ar_agent r, PInt (int (ar_disqualified r)), PInt (int (ar_qualified r)),
      PInt (int (ar_total r)), PStr (percent (ar_error r))]"

definition generate_agent_breakdown_report :: "(rat \<Rightarrow> string) \<Rightarrow> row list \<Rightarrow> report" where
  "generate_agent_breakdown_report percent records =
     [PStr ''Agent Name'', PStr ''Disqualified'', PStr ''Qualified'', PStr ''Grand Total'',
      PStr ''Error%'']
     # map (agent_display percent) (agent_rows records)"

subsection \<open>Disqualification reasons\<close>

fun reason_loop :: "row list \<Rightarrow> (pyval \<times> nat) list \<Rightarrow> (pyval \<times> nat) list" where
  "reason_loop [] cnt = cnt"
| "reason_loop (r # records) cnt =
     reason_loop records
       (if lead_status r = ''disqualified''
        then counter_add (get_default r ''DQ Reason'' (PStr ''(Blank)'')) cnt else cnt)"

record reason_row =
  rr_reason :: pyval
  rr_count :: nat
  rr_error :: rat

definition reason_row_of :: "nat \<Rightarrow> pyval \<times> nat \<Rightarrow> reason_row" where
  "reason_row_of total_leads item =
     \<lparr>rr_reason = fst item, rr_count = snd item,
      rr_error = (if total_leads > 0 then of_nat (snd item) / of_nat total_leads else 0)\<rparr>"

definition reason_grand_total :: "nat \<Rightarrow> reason_row list \<Rightarrow> reason_row" where
  "reason_grand_total total_leads rows =
     (let total_disqualified = sum_list (map rr_count rows);
          grand_error_pct =
            (if total_leads > 0 then of_nat total_disqualified / of_nat total_leads else 0)
      in \<lparr>rr_reason = PStr ''Grand Total'', rr_count = total_disqualified,
          rr_error = grand_error_pct\<rparr>)"

definition reason_rows :: "row list \<Rightarrow> reason_row list" where
  "reason_rows records =
     (let total_leads = length records;
          rows = sort_desc rr_error (map (reason_row_of total_leads) (reason_loop records []))
      in if rows \<noteq> [] then rows @ [reason_grand_total total_leads rows] else rows)"

definition reason_display :: "(rat \<Rightarrow> string) \<Rightarrow> reason_row \<Rightarrow> pyval list" where
  "reason_display percent r =
     [rr_reason r, PInt (int (rr_count r)), PStr (percent (rr_error r))]"

definition generate_dq_reason_report :: "(rat \<Rightarrow> string) \<Rightarrow> row list \<Rightarrow> report" where
  "generate_dq_reason_report percent records =
     [PStr ''DQ Reason'', PStr ''Disqualified'', PStr ''Error%'']
     # map (reason_display percent) (reason_rows records)"

subsection \<open>Segment and persona counts\<close>

text \<open>
  \<^verbatim>\<open>generate_segment_wise_report\<close> and \<^verbatim>\<open>generate_jt_persona_wise_report\<close> have
  the same body up to the column they read and the header they print.
\<close>

definition tag_of :: "string \<Rightarrow> row \<Rightarrow> string" where
  "tag_of column r =
     (let tag = get_default r column (PStr ''(Blank)'')
      in if tag = PNone \<or> strip (py_str tag) = [] then ''(Blank)'' else strip (py_str tag))"

fun tag_loop :: "string \<Rightarrow> row list \<Rightarrow> (string \<times> nat) list \<Rightarrow> (string \<times> nat) list" where
  "tag_loop column [] cnt = cnt"
| "tag_loop column (r # records) cnt =
     tag_loop column records
       (if lead_status r = ''qualified'' then counter_add (tag_of column r) cnt else cnt)"

text \<open>\<^verbatim>\<open>Counter.most_common()\<close>: by count, largest first, ties in the order met.\<close>

definition most_common :: "('k \<times> nat) list \<Rightarrow> ('k \<times> nat) list" where
  "most_common cnt = sort_key (\<lambda>item. - int (snd item)) cnt"

definition tag_rows :: "string \<Rightarrow> row list \<Rightarrow> (string \<times> nat) list" where
  "tag_rows column records =
     (let rows = most_common (tag_loop column records [])
      in if rows \<noteq> [] then rows @ [(''Grand Total'', sum_list (map snd rows))] else rows)"

definition tag_display :: "string \<times> nat \<Rightarrow> pyval list" where
  "tag_display item = [PStr (fst item), PInt (int (snd item))]"

definition generate_segment_wise_report :: "row list \<Rightarrow> report" where
  "generate_segment_wise_report records =
     [PStr ''Segment Wise'', PStr ''Qualified Count'']
     # map tag_display (tag_rows ''Segment Tagging'' records)"

definition generate_jt_persona_wise_report :: "row list \<Rightarrow> report" where
  "generate_jt_persona_wise_report records =
     [PStr ''JT Persona Tagging'', PStr ''Qualified Count'']
     # map tag_display (tag_rows ''JT Persona Tagging'' records)"

section \<open>Notions used to state the properties\<close>

text \<open>The dates that parse in a column, record by record.\<close>

definition parsed_dates :: "(string \<Rightarrow> date option) \<Rightarrow> string \<Rightarrow> row list \<Rightarrow> date list" where
  "parsed_dates serial c records = List.map_filter (\<lambda>r. parse_date serial (get r c)) records"

definition first_day_of_month :: "date \<Rightarrow> date" where
  "first_day_of_month d = Date (year d) (month d) 1"

text \<open>A serial number reader that reads nothing, for the concrete examples.\<close>

definition no_serial :: "string \<Rightarrow> date option" where
  "no_serial s = None"

text \<open>Records for the concrete examples of the date filters.\<close>

definition mtd_r1 :: row where
  "mtd_r1 = [''Audit Date'' \<mapsto> PStr ''03-Nov-25'', ''Lead Status'' \<mapsto> PStr ''Qualified'']"

definition mtd_r2 :: row where
  "mtd_r2 = [''Audit Date'' \<mapsto> PDate (Date 2025 11 6)]"

definition mtd_r3 :: row where
  "mtd_r3 = [''Audit Date'' \<mapsto> PStr ''n/a'']"

definition mtd_r4 :: row where
  "mtd_r4 = [''Audit Date'' \<mapsto> PDate (Date 2025 11 7)]"

definition blank_column_row :: row where
  "blank_column_row = [[] \<mapsto> PDate (Date 2025 11 6)]"

text \<open>Every address of a list of records points into the store.\<close>

definition valid_refs :: "store \<Rightarrow> addr list \<Rightarrow> bool" where
  "valid_refs h as = list_all (\<lambda>a. a < length h) as"

text \<open>What \<^verbatim>\<open>clean_data\<close> leaves in the copy of a record.\<close>

definition clean_row :: "row \<Rightarrow> row" where
  "clean_row r =
     r(''Lead Status'' \<mapsto> clean_value ''Lead Status'' (get r ''Lead Status''),
       ''Agent Name'' \<mapsto> clean_value ''Agent Name'' (get r ''Agent Name''),
       ''DQ Reason'' \<mapsto> clean_value ''DQ Reason'' (get r ''DQ Reason''))"

text \<open>What \<^verbatim>\<open>apply_corrections\<close> leaves in the copy of a record, and its test.\<close>

definition is_key :: "corrections \<Rightarrow> row \<Rightarrow> bool" where
  "is_key cm r = (map_of cm (get r ''Lead Status'') \<noteq> None)"

definition corrected_row :: "corrections \<Rightarrow> row \<Rightarrow> row" where
  "corrected_row cm r =
     (case map_of cm (get r ''Lead Status'') of
        None \<Rightarrow> r
      | Some v \<Rightarrow> r(''Lead Status'' \<mapsto> v))"

text \<open>Records for the concrete examples of cleaning and correcting.\<close>

definition raw_r0 :: row where
  "raw_r0 = [''Lead Status'' \<mapsto> PStr '' Qualified '', ''Agent Name'' \<mapsto> PStr ''-'',
             ''DQ Reason'' \<mapsto> PStr ''email bounce back'', ''_row_number'' \<mapsto> PInt 2,
             ''_sheet_name'' \<mapsto> PStr ''Qualified'']"

definition raw_r1 :: row where
  "raw_r1 = [''Lead Status'' \<mapsto> PStr ''Qual'', ''Segment Tagging'' \<mapsto> PStr ''SMB'',
             ''_row_number'' \<mapsto> PInt 3]"

definition qual_row :: row where
  "qual_row = [''Lead Status'' \<mapsto> PStr ''Qual'', ''Agent Name'' \<mapsto> PStr ''A'']"

definition ok_row :: row where
  "ok_row = [''Lead Status'' \<mapsto> PStr ''Qualified'', ''Agent Name'' \<mapsto> PStr ''B'']"

definition qual_store :: store where
  "qual_store = [qual_row, qual_row, ok_row, qual_row, qual_row, qual_row]"

definition qual_map :: corrections where
  "qual_map = [(PStr ''Qual'', PStr ''Qualified'')]"

definition identity_map :: corrections where
  "identity_map = [(PStr ''Qual'', PStr ''Qual'')]"

definition qual_refs :: "addr list" where
  "qual_refs = [0, 1, 2, 3, 4, 5]"

definition qual_result :: "store \<times> addr list \<times> nat" where
  "qual_result = apply_corrections qual_store qual_refs qual_map"

definition qual_again :: "store \<times> addr list \<times> nat" where
  "qual_again = apply_corrections (fst qual_result) (fst (snd qual_result)) qual_map"

definition qual_skip :: "store \<times> addr list \<times> nat" where
  "qual_skip = apply_corrections qual_store qual_refs []"

definition identity_result :: "store \<times> addr list \<times> nat" where
  "identity_result = apply_corrections [qual_row] [0] identity_map"

text \<open>A sheet with an empty row between the header and the only data row.\<close>

definition gap_sheet :: worksheet where
  "gap_sheet =
     [[PStr ''Lead Status'', PStr ''Agent Name''],
      [PNone, PNone],
      [PStr ''Qualified'', PStr ''A'']]"

text \<open>
  The end-to-end scenario: ten leads, six audited on 6 November 2025 (four qualified, two
  disqualified) and four on 3 November 2025 (three qualified, one disqualified), cleaned,
  filtered for 6 November 2025 and summarised.
\<close>

definition lead :: "pyval \<Rightarrow> string \<Rightarrow> row" where
  "lead d status = [''Audit Date'' \<mapsto> d, ''Lead Status'' \<mapsto> PStr status]"

definition scenario_store :: store where
  "scenario_store =
     [lead (PStr ''06-Nov-25'') ''Qualified'',
      lead (PStr ''2025-11-06'') ''Qualified'',
      lead (PDate (Date 2025 11 6)) ''Qualified'',
      lead (PDateTime (Date 2025 11 6) (Time 0 0 0 0)) ''Qualified'',
      lead (PStr ''06-11-2025'') ''Disqualified'',
      lead (PStr ''2025-11-06 00:00:00'') ''Disqualified'',
      lead (PStr ''03-Nov-25'') ''Qualified'',
      lead (PDate (Date 2025 11 3)) ''Qualified'',
      lead (PStr ''2025-11-03'') ''Qualified'',
      lead (PStr ''03/11/2025'') ''Disqualified'']"

definition scenario_report :: report where
  "scenario_report =
     (let (h, cleaned) = clean_data scenario_store [0..<10];
          cleaned_records = rows_of h cleaned
      in generate_combined_qa_report
           (filter_records_by_date no_serial (Some ''Audit Date'') cleaned_records (Date 2025 11 6))
           (filter_records_mtd no_serial (Some ''Audit Date'') cleaned_records (Date 2025 11 6)))"

text \<open>
  A counting loop, in general: \<open>sel\<close> gives the key a record is counted under, or
  \<open>None\<close> when the loop skips the record. \<open>lookup\<close> reads a count, 0 for a key not met.
\<close>

definition tally :: "('r \<Rightarrow> 'k option) \<Rightarrow> 'r list \<Rightarrow> ('k \<times> nat) list \<Rightarrow> ('k \<times> nat) list" where
  "tally sel rs cnt = fold (\<lambda>r c. case sel r of None \<Rightarrow> c | Some k \<Rightarrow> counter_add k c) rs cnt"

definition lookup :: "('k \<times> nat) list \<Rightarrow> 'k \<Rightarrow> nat" where
  "lookup cnt k = (case map_of cnt k of None \<Rightarrow> 0 | Some n \<Rightarrow> n)"

text \<open>Records for the concrete examples of the reports.\<close>

definition agent_lead :: "string \<Rightarrow> string \<Rightarrow> string \<Rightarrow> row" where
  "agent_lead agent status reason =
     [''Agent Name'' \<mapsto> PStr agent, ''Lead Status'' \<mapsto> PStr status, ''DQ Reason'' \<mapsto> PStr reason]"

definition report_example :: "row list" where
  "report_example =
     [agent_lead ''B'' ''Qualified'' ''(Blank)'',
      agent_lead ''A'' ''Disqualified'' ''Invalid Email'',
      agent_lead ''A'' ''Qualified'' ''(Blank)'',
      agent_lead ''B'' ''Disqualified'' ''Invalid Phone Number'',
      agent_lead ''A'' ''Disqualified'' ''Invalid Email'',
      agent_lead ''C'' ''On Hold'' ''(Blank)'']"

definition row_A :: agent_row where
  "row_A = \<lparr>ar_agent = PStr ''A'', ar_disqualified = 2, ar_qualified = 3, ar_total = 5,
            ar_error = 2 / 5\<rparr>"

definition row_B :: agent_row where
  "row_B = \<lparr>ar_agent = PStr ''B'', ar_disqualified = 1, ar_qualified = 4, ar_total = 5,
            ar_error = 1 / 5\<rparr>"

definition percent_stub :: "rat \<Rightarrow> string" where
  "percent_stub x = ''%''"

text \<open>
  The rule of the automatic suggestion, in the words of the specification: the trimmed
  lower-case text equals or starts with one of the patterns.
\<close>

definition matches_any :: "string list \<Rightarrow> string \<Rightarrow> bool" where
  "matches_any patterns s = list_ex (\<lambda>pattern. pattern = s \<or> startswith s pattern) patterns"

definition suggestion_rule :: "pyval \<Rightarrow> pyval option" where
  "suggestion_rule status =
     (let s = strip (lower (py_str status))
      in if matches_any [''qualified'', ''qualify'', ''qual'', ''q''] s
         then Some (PStr ''Qualified'')
         else if matches_any [''disqualified'', ''disqualify'', ''disqual'', ''dq'', ''dis''] s
         then Some (PStr ''Disqualified'')
         else None)"

text \<open>A similarity score for the concrete examples.\<close>

definition ratio_stub :: "string \<Rightarrow> string \<Rightarrow> rat" where
  "ratio_stub x word = 7 / 10"

definition qual_issue :: issue where
  "qual_issue =
     \<lparr>original = PStr ''Qual'', count = 5, auto_suggestion = Some (PStr ''Qualified''),
      fuzzy_matches = [''Qualified'', ''Disqualified''],
      valid_options = [''Disqualified'', ''Qualified'']\<rparr>"

section \<open>Properties\<close>

section \<open>Date parsing\<close>

text \<open>
  C2. \<^verbatim>\<open>parse_date\<close> tries the formats of its list in order, the day-month-year
  formats before the month-day-year ones. Each of "06-Nov-25", "06-11-2025",
  "2025-11-06" and "2025-11-06 00:00:00" parses to 6 November 2025. "11/06/2025" parses
  to 11 June 2025: the format \<^verbatim>\<open>%d/%m/%Y\<close> is the one that the list reaches first,
  although \<^verbatim>\<open>%m/%d/%Y\<close> alone would read the text as 6 November.
\<close>

theorem parse_date_documented_formats:
  "parse_date serial (PStr ''06-Nov-25'') = Some (Date 2025 11 6)
   \<and> parse_date serial (PStr ''06-11-2025'') = Some (Date 2025 11 6)
   \<and> parse_date serial (PStr ''2025-11-06'') = Some (Date 2025 11 6)
   \<and> parse_date serial (PStr ''2025-11-06 00:00:00'') = Some (Date 2025 11 6)
   \<and> parse_date serial (PStr ''11/06/2025'') = Some (Date 2025 6 11)
   \<and> try_formats date_formats ''11/06/2025'' = strptime_date ''11/06/2025'' ''%d/%m/%Y''
   \<and> strptime_date ''11/06/2025'' ''%m/%d/%Y'' = Some (Date 2025 11 6)"
  by code_simp

section \<open>The month-to-date window\<close>

lemma parsed_dates_Nil [simp]: "parsed_dates serial c [] = []"
  by (simp add: parsed_dates_def)

lemma parsed_dates_Cons:
  "parsed_dates serial c (r # rs) =
     (case parse_date serial (get r c) of
        None \<Rightarrow> parsed_dates serial c rs
      | Some p \<Rightarrow> p # parsed_dates serial c rs)"
  by (simp add: parsed_dates_def split: option.splits)

lemma parsed_dates_mem:
  "parse_date serial (get r c) = Some p \<Longrightarrow> r \<in> set records
     \<Longrightarrow> p \<in> set (parsed_dates serial c records)"
  by (induction records) (auto simp: parsed_dates_Cons split: option.splits)

lemma Min_insert_smaller:
  fixes p e :: "'a::linorder"
  assumes "finite S"
  shows "Min (insert (if p < e then p else e) S) = Min (insert e (insert p S))"
proof (cases "S = {}")
  case True
  then show ?thesis by (auto simp: min_def)
next
  case False
  with assms show ?thesis by (auto simp: min_def)
qed

text \<open>The first loop keeps the least date met so far.\<close>

lemma earliest_date_Some:
  "earliest_date serial (Some c) rs (Some e)
     = Some (Min (insert e (set (parsed_dates serial c rs))))"
proof (induction rs arbitrary: e)
  case Nil
  then show ?case by simp
next
  case (Cons r rs)
  show ?case
  proof (cases "parse_date serial (get r c)")
    case None
    then show ?thesis by (simp add: Cons.IH record_date_def parsed_dates_Cons)
  next
    case (Some p)
    have "earliest_date serial (Some c) (r # rs) (Some e)
          = earliest_date serial (Some c) rs (Some (if p < e then p else e))"
      using Some by (simp add: record_date_def)
    also have "\<dots> = Some (Min (insert (if p < e then p else e) (set (parsed_dates serial c rs))))"
      by (rule Cons.IH)
    also have "\<dots> = Some (Min (insert e (insert p (set (parsed_dates serial c rs)))))"
      by (simp only: Min_insert_smaller[OF finite_set])
    finally show ?thesis using Some by (simp add: parsed_dates_Cons del: Min_insert)
  qed
qed

lemma earliest_date_None:
  "earliest_date serial (Some c) rs None =
     (if parsed_dates serial c rs = [] then None
      else Some (Min (set (parsed_dates serial c rs))))"
proof (induction rs)
  case Nil
  then show ?case by simp
next
  case (Cons r rs)
  show ?case
  proof (cases "parse_date serial (get r c)")
    case None
    then show ?thesis by (simp add: Cons.IH record_date_def parsed_dates_Cons)
  next
    case (Some p)
    then show ?thesis
      by (simp add: earliest_date_Some record_date_def parsed_dates_Cons del: Min_insert)
  qed
qed

lemma filter_records_mtd_eq:
  assumes "c \<noteq> []"
  shows "filter_records_mtd serial (Some c) records selected_date =
           (if parsed_dates serial c records = [] then []
            else filter (\<lambda>r. case parse_date serial (get r c) of
                                None \<Rightarrow> False
                              | Some p \<Rightarrow>
                                  first_day_of_month (Min (set (parsed_dates serial c records))) \<le> p
                                  \<and> p \<le> selected_date) records)"
  using assms
  by (simp add: filter_records_mtd_def column_unset_def earliest_date_None
      record_date_def first_day_of_month_def Let_def cong: option.case_cong)

lemma filter_records_mtd_before_earliest:
  assumes "c \<noteq> []" and ne: "parsed_dates serial c records \<noteq> []"
    and lt: "selected_date < Min (set (parsed_dates serial c records))"
  shows "filter_records_mtd serial (Some c) records selected_date = []"
proof -
  have "\<not> p \<le> selected_date"
    if "parse_date serial (get r c) = Some p" "r \<in> set records" for r p
  proof -
    have "Min (set (parsed_dates serial c records)) \<le> p"
      using parsed_dates_mem[OF that] by simp
    with lt show ?thesis by simp
  qed
  then show ?thesis
    by (auto simp: filter_records_mtd_eq[OF assms(1)] filter_empty_conv split: option.splits)
qed

lemma filter_records_mtd_unset:
  "column_unset date_column \<Longrightarrow> filter_records_mtd serial date_column records selected_date = []"
  by (simp add: filter_records_mtd_def)

text \<open>
  C1, as the code has it. For every list of records, every date column with a name
  that is not empty, and every selected date, \<^verbatim>\<open>filter_records_mtd\<close> returns exactly
  the records, in their order, whose value in the column parses to a date between the
  first day of the month of the least parsed date of all records and the selected date,
  both included. With no record that parses the result is empty, and so it is when the
  selected date lies before the least parsed date. When no date column is set, or the
  name of the column is the empty string, the result is empty for every list of records
  and every selected date. The result is a function of the column, the records and the
  selected date alone, so two calls on the same inputs agree.
\<close>

theorem filter_records_mtd_window:
  "(c \<noteq> [] \<longrightarrow>
      filter_records_mtd serial (Some c) records selected_date =
           (if parsed_dates serial c records = [] then []
            else filter (\<lambda>r. case parse_date serial (get r c) of
                                None \<Rightarrow> False
                              | Some p \<Rightarrow>
                                  first_day_of_month (Min (set (parsed_dates serial c records))) \<le> p
                                  \<and> p \<le> selected_date) records)
      \<and> (parsed_dates serial c records = [] \<longrightarrow>
              filter_records_mtd serial (Some c) records selected_date = [])
      \<and> (parsed_dates serial c records \<noteq> []
              \<and> selected_date < Min (set (parsed_dates serial c records)) \<longrightarrow>
              filter_records_mtd serial (Some c) records selected_date = []))
   \<and> (date_column = None \<or> date_column = Some [] \<longrightarrow>
        filter_records_mtd serial date_column records selected_date = [])"
proof (intro conjI impI)
  assume c: "c \<noteq> []"
  show "filter_records_mtd serial (Some c) records selected_date =
           (if parsed_dates serial c records = [] then []
            else filter (\<lambda>r. case parse_date serial (get r c) of
                                None \<Rightarrow> False
                              | Some p \<Rightarrow>
                                  first_day_of_month (Min (set (parsed_dates serial c records))) \<le> p
                                  \<and> p \<le> selected_date) records)"
    by (rule filter_records_mtd_eq[OF c])
  show "filter_records_mtd serial (Some c) records selected_date = []"
    if "parsed_dates serial c records = []"
    using that by (simp add: filter_records_mtd_eq[OF c])
  show "filter_records_mtd serial (Some c) records selected_date = []"
    if "parsed_dates serial c records \<noteq> []
        \<and> selected_date < Min (set (parsed_dates serial c records))"
    using that filter_records_mtd_before_earliest[OF c] by blast
next
  assume "date_column = None \<or> date_column = Some []"
  then have "column_unset date_column"
    by (auto simp: column_unset_def)
  then show "filter_records_mtd serial date_column records selected_date = []"
    by (rule filter_records_mtd_unset)
qed

theorem filter_records_mtd_window_witness:
  "filter_records_mtd no_serial (Some ''Audit Date'') [mtd_r1, mtd_r2, mtd_r3, mtd_r4]
     (Date 2025 11 6) = [mtd_r1, mtd_r2]
   \<and> filter_records_mtd no_serial (Some ''Audit Date'') [mtd_r3] (Date 2025 11 6) = []
   \<and> filter_records_mtd no_serial (Some ''Audit Date'') [mtd_r1, mtd_r2, mtd_r3, mtd_r4]
       (Date 2025 10 31) = []
   \<and> filter_records_mtd no_serial None [mtd_r1, mtd_r2, mtd_r3, mtd_r4] (Date 2025 11 6) = []
   \<and> filter_records_mtd no_serial (Some []) [mtd_r1, mtd_r2, mtd_r3, mtd_r4] (Date 2025 11 6) = []"
proof -
  have c: "''Audit Date'' \<noteq> []" by simp
  have p1: "parse_date no_serial (get mtd_r1 ''Audit Date'') = Some (Date 2025 11 3)"
    by code_simp
  have p2: "parse_date no_serial (get mtd_r2 ''Audit Date'') = Some (Date 2025 11 6)"
    by code_simp
  have p3: "parse_date no_serial (get mtd_r3 ''Audit Date'') = None"
    by code_simp
  have p4: "parse_date no_serial (get mtd_r4 ''Audit Date'') = Some (Date 2025 11 7)"
    by code_simp
  have pd: "parsed_dates no_serial ''Audit Date'' [mtd_r1, mtd_r2, mtd_r3, mtd_r4]
            = [Date 2025 11 3, Date 2025 11 6, Date 2025 11 7]"
    by (simp add: parsed_dates_Cons p1 p2 p3 p4)
  have pd3: "parsed_dates no_serial ''Audit Date'' [mtd_r3] = []"
    by (simp add: parsed_dates_Cons p3)
  have mn: "Min (set [Date 2025 11 3, Date 2025 11 6, Date 2025 11 7]) = Date 2025 11 3"
    by (simp add: min_def less_eq_date_def)
  note T1 = filter_records_mtd_window[where c = "''Audit Date''" and serial = no_serial
                                        and records = "[mtd_r1, mtd_r2, mtd_r3, mtd_r4]"
                                        and selected_date = "Date 2025 11 6",
                                      THEN conjunct1, THEN mp, OF c]
  note T2 = filter_records_mtd_window[where c = "''Audit Date''" and serial = no_serial
                                        and records = "[mtd_r3]"
                                        and selected_date = "Date 2025 11 6",
                                      THEN conjunct1, THEN mp, OF c]
  note T3 = filter_records_mtd_window[where c = "''Audit Date''" and serial = no_serial
                                        and records = "[mtd_r1, mtd_r2, mtd_r3, mtd_r4]"
                                        and selected_date = "Date 2025 10 31",
                                      THEN conjunct1, THEN mp, OF c]
  note U1 = filter_records_mtd_window[where serial = no_serial and date_column = None
                                        and records = "[mtd_r1, mtd_r2, mtd_r3, mtd_r4]"
                                        and selected_date = "Date 2025 11 6",
                                      THEN conjunct2, THEN mp]
  note U2 = filter_records_mtd_window[where serial = no_serial and date_column = "Some []"
                                        and records = "[mtd_r1, mtd_r2, mtd_r3, mtd_r4]"
                                        and selected_date = "Date 2025 11 6",
                                      THEN conjunct2, THEN mp]
  have w1: "filter_records_mtd no_serial (Some ''Audit Date'') [mtd_r1, mtd_r2, mtd_r3, mtd_r4]
          (Date 2025 11 6) = [mtd_r1, mtd_r2]"
    using T1
    by (simp add: pd mn p1 p2 p3 p4 first_day_of_month_def less_eq_date_def)
  have w2: "filter_records_mtd no_serial (Some ''Audit Date'') [mtd_r3] (Date 2025 11 6) = []"
    using T2 pd3 by blast
  have w3: "filter_records_mtd no_serial (Some ''Audit Date'')
                   [mtd_r1, mtd_r2, mtd_r3, mtd_r4] (Date 2025 10 31) = []"
  proof -
    have "Date 2025 10 31 < Min (set (parsed_dates no_serial ''Audit Date''
                                        [mtd_r1, mtd_r2, mtd_r3, mtd_r4]))"
      by (simp only: pd mn) (simp add: less_date_def)
    moreover have "parsed_dates no_serial ''Audit Date'' [mtd_r1, mtd_r2, mtd_r3, mtd_r4] \<noteq> []"
      by (simp add: pd)
    ultimately show ?thesis
      using T3 by blast
  qed
  have w4: "filter_records_mtd no_serial None [mtd_r1, mtd_r2, mtd_r3, mtd_r4] (Date 2025 11 6) = []"
    by (rule U1) simp
  have w5: "filter_records_mtd no_serial (Some []) [mtd_r1, mtd_r2, mtd_r3, mtd_r4]
              (Date 2025 11 6) = []"
    by (rule U2) simp
  show ?thesis
    by (intro conjI) (rule w1 w2 w3 w4 w5)+
qed

text \<open>
  The claim as written, for every date column, fails for the column whose name is the
  empty string (a header cell of blanks gives it): the record below has a date in that
  column, the date lies in the window, and the function returns no record, because it
  takes an empty column name for no column at all.
\<close>

theorem filter_records_mtd_empty_column_counterexample:
  "parse_date no_serial (get blank_column_row []) = Some (Date 2025 11 6)
   \<and> first_day_of_month (Date 2025 11 6) \<le> Date 2025 11 6
   \<and> Date 2025 11 6 \<le> Date 2025 11 6
   \<and> filter_records_mtd no_serial (Some []) [blank_column_row] (Date 2025 11 6) = []"
  by code_simp

section \<open>Cleaning and correcting records\<close>

lemma clean_fields_three:
  assumes "c < length h"
  shows "clean_fields h c [''Lead Status'', ''Agent Name'', ''DQ Reason''] = h[c := clean_row (h ! c)]"
  using assms by (simp add: set_item_def clean_row_def get_def)

lemma clean_data_eq:
  "valid_refs h rs \<Longrightarrow>
     clean_data h rs = (h @ map (\<lambda>a. clean_row (h ! a)) rs, [length h ..< length h + length rs])"
proof (induction rs arbitrary: h)
  case Nil
  then show ?case by simp
next
  case (Cons r rs)
  from Cons.prems have r: "r < length h" and rs: "valid_refs h rs"
    by (simp_all add: valid_refs_def)
  let ?h2 = "h @ [clean_row (h ! r)]"
  have step: "clean_fields (h @ [h ! r]) (length h) [''Lead Status'', ''Agent Name'', ''DQ Reason'']
              = ?h2"
    using clean_fields_three[of "length h" "h @ [h ! r]"]
    by (simp del: clean_fields.simps)
  have v2: "valid_refs ?h2 rs"
    using rs by (auto simp: valid_refs_def list_all_iff)
  have same: "map (\<lambda>a. clean_row (?h2 ! a)) rs = map (\<lambda>a. clean_row (h ! a)) rs"
    using rs by (auto simp: valid_refs_def list_all_iff nth_append)
  have ih: "clean_data ?h2 rs
            = (?h2 @ map (\<lambda>a. clean_row (h ! a)) rs, [Suc (length h) ..< Suc (length h) + length rs])"
    using Cons.IH[OF v2] by (simp only: same length_append_singleton)
  have "clean_data h (r # rs)
        = (?h2 @ map (\<lambda>a. clean_row (h ! a)) rs,
           length h # [Suc (length h) ..< Suc (length h) + length rs])"
    by (simp add: copy_def step ih del: clean_fields.simps upt_Suc)
  also have "length h # [Suc (length h) ..< Suc (length h) + length rs]
             = [length h ..< length h + length (r # rs)]"
    by (simp add: upt_conv_Cons del: upt_Suc)
  finally show ?case by simp
qed

lemma dropWhile_id: "xs = [] \<or> \<not> P (hd xs) \<Longrightarrow> dropWhile P xs = xs"
  by (cases xs) auto

lemma rstrip_prefix: "\<exists>zs. ys = rstrip ys @ zs"
proof -
  have "rev ys = takeWhile isspace (rev ys) @ dropWhile isspace (rev ys)" by simp
  then have "ys = rev (dropWhile isspace (rev ys)) @ rev (takeWhile isspace (rev ys))"
    by (metis rev_append rev_rev_ident)
  then show ?thesis unfolding rstrip_def by blast
qed

lemma rstrip_last: "rstrip ys \<noteq> [] \<Longrightarrow> \<not> isspace (last (rstrip ys))"
  unfolding rstrip_def using hd_dropWhile[of isspace "rev ys"] by (simp add: last_rev)

lemma rstrip_hd: "rstrip ys \<noteq> [] \<Longrightarrow> hd (rstrip ys) = hd ys"
  using rstrip_prefix[of ys] by (metis hd_append2)

lemma rstrip_idem: "rstrip (rstrip ys) = rstrip ys"
proof (cases "rstrip ys = []")
  case True
  then show ?thesis by (simp add: rstrip_def)
next
  case False
  then have "\<not> isspace (hd (rev (rstrip ys)))"
    using rstrip_last[of ys] by (simp add: hd_rev)
  then have "dropWhile isspace (rev (rstrip ys)) = rev (rstrip ys)"
    by (intro dropWhile_id) simp
  then show ?thesis by (simp add: rstrip_def[of "rstrip ys"])
qed

lemma strip_idem: "strip (strip s) = strip s"
proof (cases "strip s = []")
  case True
  have "strip [] = []" by (simp add: strip_def rstrip_def lstrip_def)
  with True show ?thesis by simp
next
  case False
  let ?ys = "lstrip s"
  from False have ne: "rstrip ?ys \<noteq> []" by (simp add: strip_def)
  then have "?ys \<noteq> []" by (auto simp: rstrip_def)
  then have "\<not> isspace (hd ?ys)" unfolding lstrip_def by (rule hd_dropWhile)
  then have "\<not> isspace (hd (rstrip ?ys))" using rstrip_hd[OF ne] by simp
  then have "lstrip (rstrip ?ys) = rstrip ?ys"
    unfolding lstrip_def by (intro dropWhile_id) simp
  then show ?thesis by (simp add: strip_def rstrip_idem)
qed

lemma clean_value_cases:
  "clean_value field v =
     (if v = PNone \<or> strip (py_str v) = [] \<or> strip (py_str v) = ''-''
      then (if field = ''Lead Status'' then PStr [] else PStr ''(Blank)'')
      else if field = ''DQ Reason'' then PStr (title (strip (py_str v)))
      else PStr (strip (py_str v)))"
  by (simp add: clean_value_def normalize_dq_reason_def strip_idem Let_def)

lemma clean_row_field:
  "field \<in> {''Lead Status'', ''Agent Name'', ''DQ Reason''} \<Longrightarrow>
     clean_row r field = Some (clean_value field (get r field))"
  by (auto simp: clean_row_def)

lemma clean_row_other:
  "k \<notin> {''Lead Status'', ''Agent Name'', ''DQ Reason''} \<Longrightarrow> clean_row r k = r k"
  by (auto simp: clean_row_def)

lemma valid_refs_nth: "valid_refs h rs \<Longrightarrow> i < length rs \<Longrightarrow> rs ! i < length h"
  by (simp add: valid_refs_def list_all_length)

lemma clean_data_nth:
  assumes "valid_refs h records" "clean_data h records = (h', cleaned)" "i < length records"
  shows "h' ! (cleaned ! i) = clean_row (h ! (records ! i))"
proof -
  from assms(1,2) have h': "h' = h @ map (\<lambda>a. clean_row (h ! a)) records"
    and c: "cleaned = [length h ..< length h + length records]"
    by (simp_all add: clean_data_eq)
  from assms(3) have "cleaned ! i = length h + i" by (simp add: c)
  then show ?thesis using assms(3) by (simp add: h' nth_append)
qed

lemma corrections_loop_eq:
  "valid_refs h rs \<Longrightarrow>
     corrections_loop h rs cm =
       (h @ map (\<lambda>a. corrected_row cm (h ! a)) rs,
        [length h ..< length h + length rs],
        length (filter (\<lambda>a. is_key cm (h ! a)) rs))"
proof (induction rs arbitrary: h)
  case Nil
  then show ?case by simp
next
  case (Cons r rs)
  from Cons.prems have r: "r < length h" and rs: "valid_refs h rs"
    by (simp_all add: valid_refs_def)
  let ?h2 = "h @ [corrected_row cm (h ! r)]"
  have v2: "valid_refs ?h2 rs"
    using rs by (auto simp: valid_refs_def list_all_iff)
  have same: "map (\<lambda>a. corrected_row cm (?h2 ! a)) rs = map (\<lambda>a. corrected_row cm (h ! a)) rs"
    using rs by (auto simp: valid_refs_def list_all_iff nth_append)
  have same2: "filter (\<lambda>a. is_key cm (?h2 ! a)) rs = filter (\<lambda>a. is_key cm (h ! a)) rs"
    using rs by (auto simp: valid_refs_def list_all_iff nth_append intro!: filter_cong)
  have ih: "corrections_loop ?h2 rs cm
            = (?h2 @ map (\<lambda>a. corrected_row cm (h ! a)) rs,
               [Suc (length h) ..< Suc (length h) + length rs],
               length (filter (\<lambda>a. is_key cm (h ! a)) rs))"
    using Cons.IH[OF v2] by (simp only: same same2 length_append_singleton)
  have "corrections_loop h (r # rs) cm
        = (?h2 @ map (\<lambda>a. corrected_row cm (h ! a)) rs,
           length h # [Suc (length h) ..< Suc (length h) + length rs],
           length (filter (\<lambda>a. is_key cm (h ! a)) (r # rs)))"
  proof (cases "map_of cm (get (h ! r) ''Lead Status'')")
    case None
    then show ?thesis
      using ih by (simp add: copy_def corrected_row_def is_key_def del: upt_Suc)
  next
    case (Some v)
    then show ?thesis
      using ih by (simp add: copy_def set_item_def corrected_row_def is_key_def del: upt_Suc)
  qed
  also have "length h # [Suc (length h) ..< Suc (length h) + length rs]
             = [length h ..< length h + length (r # rs)]"
    by (simp add: upt_conv_Cons del: upt_Suc)
  finally show ?case by simp
qed

lemma corrected_row_other: "k \<noteq> ''Lead Status'' \<Longrightarrow> corrected_row cm r k = r k"
  by (simp add: corrected_row_def split: option.splits)

text \<open>A second pass finds no key when no replacement is itself a key.\<close>

lemma corrected_row_idem:
  assumes "\<forall>k v. map_of cm k = Some v \<longrightarrow> map_of cm v = None"
  shows "corrected_row cm (corrected_row cm r) = corrected_row cm r"
    and "\<not> is_key cm (corrected_row cm r)"
proof -
  show "\<not> is_key cm (corrected_row cm r)"
  proof (cases "map_of cm (get r ''Lead Status'')")
    case None
    then show ?thesis by (simp add: is_key_def corrected_row_def)
  next
    case (Some v)
    with assms have "map_of cm v = None" by blast
    with Some show ?thesis by (simp add: is_key_def corrected_row_def get_def)
  qed
  then show "corrected_row cm (corrected_row cm r) = corrected_row cm r"
    by (simp add: is_key_def corrected_row_def[of cm "corrected_row cm r"])
qed

lemma corrected_row_changed:
  assumes "\<forall>k v. map_of cm k = Some v \<longrightarrow> v \<noteq> k"
  shows "corrected_row cm r \<noteq> r \<longleftrightarrow> is_key cm r"
proof (cases "map_of cm (get r ''Lead Status'')")
  case None
  then show ?thesis by (simp add: is_key_def corrected_row_def)
next
  case (Some v)
  with assms have ne: "v \<noteq> get r ''Lead Status''" by blast
  have "(r(''Lead Status'' \<mapsto> v)) ''Lead Status'' \<noteq> r ''Lead Status''"
    using ne by (auto simp: get_def split: option.splits)
  then have "r(''Lead Status'' \<mapsto> v) \<noteq> r" by metis
  with Some show ?thesis by (simp add: is_key_def corrected_row_def)
qed

text \<open>
  C7, as the code has it. \<^verbatim>\<open>clean_data\<close> leaves in every record it returns, for each
  of the fields Lead Status, Agent Name and DQ Reason, a value that depends on the value
  \<open>v\<close> the input record has for that field (\<open>PNone\<close> when the record has none): when
  \<open>v\<close> is absent, or its text is blank after trimming, or its text is "-" after
  trimming, the field becomes "" for Lead Status and "(Blank)" for the other two;
  otherwise it becomes the trimmed text, title-cased for DQ Reason whatever the text is
  ("email bounce back" becomes "Email Bounce Back"). So the three fields are present in
  every cleaned record.
\<close>

theorem clean_data_key_fields:
  assumes "valid_refs h records" and "clean_data h records = (h', cleaned)"
    and "i < length records"
    and "field \<in> {''Lead Status'', ''Agent Name'', ''DQ Reason''}"
  shows "(h' ! (cleaned ! i)) field =
           Some (let v = get (h ! (records ! i)) field
                 in if v = PNone \<or> strip (py_str v) = [] \<or> strip (py_str v) = ''-''
                    then (if field = ''Lead Status'' then PStr [] else PStr ''(Blank)'')
                    else if field = ''DQ Reason'' then PStr (title (strip (py_str v)))
                    else PStr (strip (py_str v)))
         \<and> title ''email bounce back'' = ''Email Bounce Back''"
proof
  show "(h' ! (cleaned ! i)) field =
           Some (let v = get (h ! (records ! i)) field
                 in if v = PNone \<or> strip (py_str v) = [] \<or> strip (py_str v) = ''-''
                    then (if field = ''Lead Status'' then PStr [] else PStr ''(Blank)'')
                    else if field = ''DQ Reason'' then PStr (title (strip (py_str v)))
                    else PStr (strip (py_str v)))"
    using clean_data_nth[OF assms(1,2,3)] clean_row_field[OF assms(4)]
    by (simp only: clean_value_cases Let_def)
  show "title ''email bounce back'' = ''Email Bounce Back''"
    by code_simp
qed

theorem clean_data_key_fields_witness:
  "valid_refs [raw_r0, raw_r1] [0, 1]
   \<and> (fst (clean_data [raw_r0, raw_r1] [0, 1]) ! (snd (clean_data [raw_r0, raw_r1] [0, 1]) ! 0))
        ''DQ Reason'' = Some (PStr ''Email Bounce Back'')
   \<and> (fst (clean_data [raw_r0, raw_r1] [0, 1]) ! (snd (clean_data [raw_r0, raw_r1] [0, 1]) ! 0))
        ''Lead Status'' = Some (PStr ''Qualified'')
   \<and> (fst (clean_data [raw_r0, raw_r1] [0, 1]) ! (snd (clean_data [raw_r0, raw_r1] [0, 1]) ! 1))
        ''Agent Name'' = Some (PStr ''(Blank)'')"
proof -
  have v: "valid_refs [raw_r0, raw_r1] [0, 1]"
    by (simp add: valid_refs_def)
  have e: "clean_data [raw_r0, raw_r1] [0, 1]
           = (fst (clean_data [raw_r0, raw_r1] [0, 1]), snd (clean_data [raw_r0, raw_r1] [0, 1]))"
    by simp
  have i0: "0 < length [0::nat, 1]" and i1: "1 < length [0::nat, 1]" by simp_all
  have a: "clean_value ''DQ Reason'' (get raw_r0 ''DQ Reason'') = PStr ''Email Bounce Back''"
    by code_simp
  have b: "clean_value ''Lead Status'' (get raw_r0 ''Lead Status'') = PStr ''Qualified''"
    by code_simp
  have c: "clean_value ''Agent Name'' (get raw_r1 ''Agent Name'') = PStr ''(Blank)''"
    by code_simp
  have "(fst (clean_data [raw_r0, raw_r1] [0, 1]) ! (snd (clean_data [raw_r0, raw_r1] [0, 1]) ! 0))
          ''DQ Reason'' = Some (PStr ''Email Bounce Back'')"
    using clean_data_key_fields[OF v e i0, of "''DQ Reason''"] a
    by (simp add: clean_value_cases Let_def)
  moreover
  have "(fst (clean_data [raw_r0, raw_r1] [0, 1]) ! (snd (clean_data [raw_r0, raw_r1] [0, 1]) ! 0))
          ''Lead Status'' = Some (PStr ''Qualified'')"
    using clean_data_key_fields[OF v e i0, of "''Lead Status''"] b
    by (simp add: clean_value_cases Let_def)
  moreover
  have "(fst (clean_data [raw_r0, raw_r1] [0, 1]) ! (snd (clean_data [raw_r0, raw_r1] [0, 1]) ! 1))
          ''Agent Name'' = Some (PStr ''(Blank)'')"
    using clean_data_key_fields[OF v e i1, of "''Agent Name''"] c
    by (simp add: clean_value_cases Let_def)
  ultimately show ?thesis using v by blast
qed

text \<open>
  The claim as written sends only the exact value "-" to the blank marker and trims
  every other value. The code compares the trimmed text with "-": a dash between blanks
  is not the exact value "-", its trimmed text is "-", and the code stores the blank
  marker for it.
\<close>

theorem clean_value_padded_dash_counterexample:
  "PStr '' - '' \<noteq> PStr ''-''
   \<and> strip (py_str (PStr '' - '')) = ''-''
   \<and> clean_value ''Agent Name'' (PStr '' - '') = PStr ''(Blank)''
   \<and> clean_value ''Lead Status'' (PStr '' - '') = PStr []"
  by code_simp

text \<open>
  C10. For every store and every list of records in it, \<^verbatim>\<open>clean_data\<close> returns as
  many records as it was given, and each of them agrees with the input record of the
  same position on every key other than Lead Status, Agent Name and DQ Reason, the
  provenance keys and every extra column included. \<^verbatim>\<open>apply_corrections\<close> returns
  as many records as it was given, and each of them agrees with the input record of the
  same position on every key other than Lead Status. Neither function writes into a
  dictionary that existed before the call: the input records are not mutated.
\<close>

theorem clean_and_correct_frame:
  assumes "valid_refs h records"
  shows "(case clean_data h records of (h', cleaned) \<Rightarrow>
            length cleaned = length records
            \<and> (\<forall>i < length records. \<forall>k.
                  k \<notin> {''Lead Status'', ''Agent Name'', ''DQ Reason''} \<longrightarrow>
                    (h' ! (cleaned ! i)) k = (h ! (records ! i)) k)
            \<and> (\<forall>a < length h. h' ! a = h ! a))
         \<and> (case apply_corrections h records cm of (h', corrected, n) \<Rightarrow>
            length corrected = length records
            \<and> (\<forall>i < length records. \<forall>k.
                  k \<noteq> ''Lead Status'' \<longrightarrow> (h' ! (corrected ! i)) k = (h ! (records ! i)) k)
            \<and> (\<forall>a < length h. h' ! a = h ! a))"
proof
  have "clean_row (h ! (records ! i)) k = (h ! (records ! i)) k"
    if "k \<notin> {''Lead Status'', ''Agent Name'', ''DQ Reason''}" for i k
    using that by (rule clean_row_other)
  then show "case clean_data h records of (h', cleaned) \<Rightarrow>
            length cleaned = length records
            \<and> (\<forall>i < length records. \<forall>k.
                  k \<notin> {''Lead Status'', ''Agent Name'', ''DQ Reason''} \<longrightarrow>
                    (h' ! (cleaned ! i)) k = (h ! (records ! i)) k)
            \<and> (\<forall>a < length h. h' ! a = h ! a)"
    by (simp add: clean_data_eq[OF assms] nth_append)
  show "case apply_corrections h records cm of (h', corrected, n) \<Rightarrow>
            length corrected = length records
            \<and> (\<forall>i < length records. \<forall>k.
                  k \<noteq> ''Lead Status'' \<longrightarrow> (h' ! (corrected ! i)) k = (h ! (records ! i)) k)
            \<and> (\<forall>a < length h. h' ! a = h ! a)"
    by (simp add: apply_corrections_def corrections_loop_eq[OF assms] nth_append
        corrected_row_other)
qed

theorem clean_and_correct_frame_witness:
  "valid_refs [raw_r0, raw_r1] [0, 1]
   \<and> length (snd (clean_data [raw_r0, raw_r1] [0, 1])) = 2
   \<and> (fst (clean_data [raw_r0, raw_r1] [0, 1]) ! (snd (clean_data [raw_r0, raw_r1] [0, 1]) ! 1))
        ''_row_number'' = Some (PInt 3)
   \<and> (fst (clean_data [raw_r0, raw_r1] [0, 1]) ! (snd (clean_data [raw_r0, raw_r1] [0, 1]) ! 1))
        ''Segment Tagging'' = Some (PStr ''SMB'')
   \<and> fst (clean_data [raw_r0, raw_r1] [0, 1]) ! 1 = raw_r1
   \<and> length (fst (snd (apply_corrections [raw_r0, raw_r1] [0, 1] qual_map))) = 2
   \<and> (fst (apply_corrections [raw_r0, raw_r1] [0, 1] qual_map)
        ! (fst (snd (apply_corrections [raw_r0, raw_r1] [0, 1] qual_map)) ! 1))
        ''_row_number'' = Some (PInt 3)
   \<and> fst (apply_corrections [raw_r0, raw_r1] [0, 1] qual_map) ! 1 = raw_r1"
proof -
  have v: "valid_refs [raw_r0, raw_r1] [0, 1]"
    by (simp add: valid_refs_def)
  have k1: "''_row_number'' \<notin> {''Lead Status'', ''Agent Name'', ''DQ Reason''}"
    and k2: "''Segment Tagging'' \<notin> {''Lead Status'', ''Agent Name'', ''DQ Reason''}"
    and k3: "''_row_number'' \<noteq> ''Lead Status''"
    by simp_all
  have r1: "raw_r1 ''_row_number'' = Some (PInt 3)" "raw_r1 ''Segment Tagging'' = Some (PStr ''SMB'')"
    by (simp_all add: raw_r1_def)
  have i1: "(1::nat) < length [0::nat, 1]" and a1: "(1::nat) < length [raw_r0, raw_r1]"
    by simp_all
  have n1: "[raw_r0, raw_r1] ! ([0, 1] ! 1) = raw_r1" "[raw_r0, raw_r1] ! 1 = raw_r1"
    "length [0::nat, 1] = 2"
    by simp_all
  note T = clean_and_correct_frame[OF v, of qual_map, unfolded case_prod_beta]
  note A = T[THEN conjunct1] and B = T[THEN conjunct2]
  note c0 = A[THEN conjunct1, unfolded n1]
  note c1 = A[THEN conjunct2, THEN conjunct1, rule_format, OF i1 k1, unfolded n1 r1]
  note c2 = A[THEN conjunct2, THEN conjunct1, rule_format, OF i1 k2, unfolded n1 r1]
  note c3 = A[THEN conjunct2, THEN conjunct2, rule_format, OF a1, unfolded n1]
  note d0 = B[THEN conjunct1, unfolded n1]
  note d1 = B[THEN conjunct2, THEN conjunct1, rule_format, OF i1 k3, unfolded n1 r1]
  note d3 = B[THEN conjunct2, THEN conjunct2, rule_format, OF a1, unfolded n1]
  show ?thesis
    by (intro conjI) (rule v c0 c1 c2 c3 d0 d1 d3)+
qed

text \<open>
  C6, as the code has it. With an empty correction map \<^verbatim>\<open>apply_corrections\<close> returns
  its input as it is, with the count 0. With a map that is not empty it returns new
  records (copies, allocated by the call): the copy of a record whose original Lead
  Status is a key of the map has the Lead Status that the map gives, and the copy of any
  other record equals that record. The count returned is the number of records whose
  original Lead Status is a key: 5 for the map from "Qual" to "Qualified" and a dataset
  with exactly 5 records of Lead Status "Qual". It is the number of records actually
  changed whenever no key is mapped to itself. When no value of the map is itself a key,
  applying the map to the result again changes nothing more.
\<close>

theorem apply_corrections_spec:
  assumes "valid_refs h records" and "apply_corrections h records cm = (h', corrected, n)"
  shows "(cm = [] \<longrightarrow> h' = h \<and> corrected = records \<and> n = 0)
         \<and> (cm \<noteq> [] \<longrightarrow> (\<forall>a \<in> set corrected. length h \<le> a \<and> a < length h'))
         \<and> rows_of h' corrected = map (corrected_row cm) (rows_of h records)
         \<and> (\<forall>a < length h. h' ! a = h ! a)
         \<and> n = length (filter (\<lambda>a. is_key cm (h ! a)) records)
         \<and> (cm = [(PStr ''Qual'', PStr ''Qualified'')] \<longrightarrow>
              n = length (filter (\<lambda>a. get (h ! a) ''Lead Status'' = PStr ''Qual'') records))
         \<and> ((\<forall>k v. map_of cm k = Some v \<longrightarrow> v \<noteq> k) \<longrightarrow>
              n = length (filter (\<lambda>i. h' ! (corrected ! i) \<noteq> h ! (records ! i)) [0..<length records]))
         \<and> ((\<forall>k v. map_of cm k = Some v \<longrightarrow> map_of cm v = None) \<longrightarrow>
              (case apply_corrections h' corrected cm of (h'', again, n') \<Rightarrow>
                 rows_of h'' again = rows_of h' corrected \<and> n' = 0))"
proof -
  have rows_empty: "map (corrected_row []) rs = rs" for rs
    by (induction rs) (simp_all add: corrected_row_def)
  have keys_empty: "filter (\<lambda>a. is_key [] (h ! a)) records = []"
    by (simp add: is_key_def)
  show ?thesis
  proof (cases "cm = []")
    case True
    with assms(2) have res: "h' = h" "corrected = records" "n = 0"
      by (simp_all add: apply_corrections_def)
    have again: "apply_corrections h records [] = (h, records, 0)"
      by (simp add: apply_corrections_def)
    show ?thesis
      using True res
      by (simp add: rows_empty keys_empty again)
  next
    case False
    with assms have h': "h' = h @ map (\<lambda>a. corrected_row cm (h ! a)) records"
      and c: "corrected = [length h ..< length h + length records]"
      and n: "n = length (filter (\<lambda>a. is_key cm (h ! a)) records)"
      by (simp_all add: apply_corrections_def corrections_loop_eq)
    have nth: "h' ! (corrected ! i) = corrected_row cm (h ! (records ! i))"
      if "i < length records" for i
      using that by (simp add: h' c nth_append)
    have rows: "rows_of h' corrected = map (corrected_row cm) (rows_of h records)"
      by (rule nth_equalityI) (simp_all add: rows_of_def c h' nth_append)
    have fresh: "\<forall>a \<in> set corrected. length h \<le> a \<and> a < length h'"
      by (simp add: c h')
    have old: "\<forall>a < length h. h' ! a = h ! a"
      by (simp add: h' nth_append)
    have qual: "n = length (filter (\<lambda>a. get (h ! a) ''Lead Status'' = PStr ''Qual'') records)"
      if "cm = [(PStr ''Qual'', PStr ''Qualified'')]"
      using that by (simp add: n is_key_def cong: filter_cong)
    have changed: "n = length (filter (\<lambda>i. h' ! (corrected ! i) \<noteq> h ! (records ! i)) [0..<length records])"
      if ne: "\<forall>k v. map_of cm k = Some v \<longrightarrow> v \<noteq> k"
    proof -
      have "filter (\<lambda>i. h' ! (corrected ! i) \<noteq> h ! (records ! i)) [0..<length records]
            = filter (\<lambda>i. is_key cm (h ! (records ! i))) [0..<length records]"
        by (rule filter_cong) (simp_all add: nth corrected_row_changed[OF ne])
      moreover have "length (filter (\<lambda>i. is_key cm (h ! (records ! i))) [0..<length records])
            = length (filter (\<lambda>a. is_key cm (h ! a)) records)"
        using length_filter_map[of "\<lambda>a. is_key cm (h ! a)" "\<lambda>i. records ! i" "[0..<length records]"]
        by (simp add: map_nth comp_def)
      ultimately show ?thesis by (simp add: n)
    qed
    have idem: "case apply_corrections h' corrected cm of (h'', again, n') \<Rightarrow>
                  rows_of h'' again = rows_of h' corrected \<and> n' = 0"
      if nk: "\<forall>k v. map_of cm k = Some v \<longrightarrow> map_of cm v = None"
    proof -
      have v': "valid_refs h' corrected"
        using fresh by (simp add: valid_refs_def list_all_iff)
      have r2: "map (\<lambda>a. corrected_row cm (h' ! a)) corrected = map (\<lambda>a. h' ! a) corrected"
      proof (rule nth_equalityI)
        show "length (map (\<lambda>a. corrected_row cm (h' ! a)) corrected) = length (map (\<lambda>a. h' ! a) corrected)"
          by simp
        fix i assume "i < length (map (\<lambda>a. corrected_row cm (h' ! a)) corrected)"
        then have i: "i < length records" by (simp add: c)
        then show "map (\<lambda>a. corrected_row cm (h' ! a)) corrected ! i = map (\<lambda>a. h' ! a) corrected ! i"
          using nth[OF i] corrected_row_idem(1)[OF nk] by (simp add: c)
      qed
      have k2: "filter (\<lambda>a. is_key cm (h' ! a)) corrected = []"
      proof -
        have "\<not> is_key cm (h' ! a)" if "a \<in> set corrected" for a
        proof -
          from that obtain i where i: "i < length records" and a: "a = corrected ! i"
            by (metis c in_set_conv_nth length_upt add_diff_cancel_left')
          show ?thesis using nth[OF i] corrected_row_idem(2)[OF nk] by (simp add: a)
        qed
        then show ?thesis by (simp add: filter_empty_conv)
      qed
      have second: "apply_corrections h' corrected cm
                    = (h' @ map (\<lambda>a. h' ! a) corrected,
                       [length h' ..< length h' + length corrected], 0)"
        using False by (simp add: apply_corrections_def corrections_loop_eq[OF v'] r2 k2)
      have "rows_of (h' @ map (\<lambda>a. h' ! a) corrected) [length h' ..< length h' + length corrected]
            = rows_of h' corrected"
        by (rule nth_equalityI) (simp_all add: rows_of_def nth_append)
      then show ?thesis by (simp add: second)
    qed
    show ?thesis
      using False rows fresh old n qual changed idem by blast
  qed
qed

theorem apply_corrections_spec_witness:
  "valid_refs qual_store qual_refs
   \<and> snd (snd qual_result) = 5
   \<and> snd (snd qual_result)
       = length (filter (\<lambda>i. fst qual_result ! (fst (snd qual_result) ! i)
                               \<noteq> qual_store ! (qual_refs ! i)) [0..<length qual_refs])
   \<and> rows_of (fst qual_again) (fst (snd qual_again))
       = rows_of (fst qual_result) (fst (snd qual_result))
   \<and> snd (snd qual_again) = 0
   \<and> fst qual_skip = qual_store \<and> fst (snd qual_skip) = qual_refs \<and> snd (snd qual_skip) = 0"
proof -
  have v: "valid_refs qual_store qual_refs"
    by (simp add: valid_refs_def qual_store_def qual_refs_def)
  have e: "apply_corrections qual_store qual_refs qual_map
           = (fst qual_result, fst (snd qual_result), snd (snd qual_result))"
    by (simp add: qual_result_def)
  have e0: "apply_corrections qual_store qual_refs []
            = (fst qual_skip, fst (snd qual_skip), snd (snd qual_skip))"
    by (simp add: qual_skip_def)
  have m: "qual_map = [(PStr ''Qual'', PStr ''Qualified'')]"
    by (simp add: qual_map_def)
  have ne: "\<forall>k v. map_of qual_map k = Some v \<longrightarrow> v \<noteq> k"
    by (simp add: qual_map_def)
  have nk: "\<forall>k v. map_of qual_map k = Some v \<longrightarrow> map_of qual_map v = None"
    by (simp add: qual_map_def)
  have five: "length (filter (\<lambda>a. get (qual_store ! a) ''Lead Status'' = PStr ''Qual'') qual_refs) = 5"
    by code_simp
  note T = apply_corrections_spec[OF v e]
  note S = apply_corrections_spec[OF v e0]
  note T6 = T[THEN conjunct2, THEN conjunct2, THEN conjunct2, THEN conjunct2, THEN conjunct2]
  note w1 = T6[THEN conjunct1, THEN mp, OF m, unfolded five]
  note w2 = T6[THEN conjunct2, THEN conjunct1, THEN mp, OF ne]
  note w3 = T6[THEN conjunct2, THEN conjunct2, THEN mp, OF nk,
               unfolded case_prod_beta, folded qual_again_def]
  note w4 = S[THEN conjunct1, THEN mp, OF refl]
  show ?thesis
    by (intro conjI) (rule v w1 w2 w3[THEN conjunct1] w3[THEN conjunct2]
        w4[THEN conjunct1] w4[THEN conjunct2, THEN conjunct1] w4[THEN conjunct2, THEN conjunct2])+
qed

text \<open>
  The claim as written fails in two places. It calls the count the number of records
  actually changed: a map that sends "Qual" to "Qual" is counted once for a record that
  comes out as it went in. And it has the records of the result new for any map: with
  the empty map the record returned is the record given, at its own address.
\<close>

theorem apply_corrections_count_counterexample:
  "snd (snd identity_result) = 1
   \<and> rows_of (fst identity_result) (fst (snd identity_result)) = rows_of [qual_row] [0]
   \<and> fst (snd (apply_corrections [qual_row] [0] [])) = [0]"
proof -
  have q: "qual_row ''Lead Status'' = Some (PStr ''Qual'')"
    by (simp add: qual_row_def)
  then have "qual_row(''Lead Status'' \<mapsto> PStr ''Qual'') = qual_row"
    by (rule fun_upd_idem)
  then show ?thesis
    by (simp add: identity_result_def apply_corrections_def identity_map_def copy_def
        set_item_def rows_of_def get_def q)
qed

section \<open>The combined summary\<close>

lemma rows_of_fresh: "rows_of (h @ xs) [length h ..< length h + length xs] = xs"
  by (rule nth_equalityI) (simp_all add: rows_of_def nth_append)

lemma rows_of_clean_all:
  "clean_data h [0..<length h] = (h', cleaned) \<Longrightarrow> rows_of h' cleaned = map clean_row h"
proof -
  assume a: "clean_data h [0..<length h] = (h', cleaned)"
  have v: "valid_refs h [0..<length h]"
    by (simp add: valid_refs_def list_all_iff)
  have m: "map (\<lambda>a. clean_row (h ! a)) [0..<length h] = map clean_row h"
    by (rule nth_equalityI) simp_all
  from a have "h' = h @ map clean_row h" and "cleaned = [length h ..< length h + length (map clean_row h)]"
    by (simp_all add: clean_data_eq[OF v] m)
  then show ?thesis by (simp only: rows_of_fresh)
qed

lemma scenario_d0:
  "parse_date no_serial (get (clean_row (lead (PStr ''06-Nov-25'') ''Qualified'')) ''Audit Date'') = Some (Date 2025 11 6)"
  by code_simp

lemma scenario_s0:
  "lead_status (clean_row (lead (PStr ''06-Nov-25'') ''Qualified'')) = ''qualified''"
  by code_simp

lemma scenario_d1:
  "parse_date no_serial (get (clean_row (lead (PStr ''2025-11-06'') ''Qualified'')) ''Audit Date'') = Some (Date 2025 11 6)"
  by code_simp

lemma scenario_s1:
  "lead_status (clean_row (lead (PStr ''2025-11-06'') ''Qualified'')) = ''qualified''"
  by code_simp

lemma scenario_d2:
  "parse_date no_serial (get (clean_row (lead (PDate (Date 2025 11 6)) ''Qualified'')) ''Audit Date'') = Some (Date 2025 11 6)"
  by code_simp

lemma scenario_s2:
  "lead_status (clean_row (lead (PDate (Date 2025 11 6)) ''Qualified'')) = ''qualified''"
  by code_simp

lemma scenario_d3:
  "parse_date no_serial (get (clean_row (lead (PDateTime (Date 2025 11 6) (Time 0 0 0 0)) ''Qualified'')) ''Audit Date'') = Some (Date 2025 11 6)"
  by code_simp

lemma scenario_s3:
  "lead_status (clean_row (lead (PDateTime (Date 2025 11 6) (Time 0 0 0 0)) ''Qualified'')) = ''qualified''"
  by code_simp

lemma scenario_d4:
  "parse_date no_serial (get (clean_row (lead (PStr ''06-11-2025'') ''Disqualified'')) ''Audit Date'') = Some (Date 2025 11 6)"
  by code_simp

lemma scenario_s4:
  "lead_status (clean_row (lead (PStr ''06-11-2025'') ''Disqualified'')) = ''disqualified''"
  by code_simp

lemma scenario_d5:
  "parse_date no_serial (get (clean_row (lead (PStr ''2025-11-06 00:00:00'') ''Disqualified'')) ''Audit Date'') = Some (Date 2025 11 6)"
  by code_simp

lemma scenario_s5:
  "lead_status (clean_row (lead (PStr ''2025-11-06 00:00:00'') ''Disqualified'')) = ''disqualified''"
  by code_simp

lemma scenario_d6:
  "parse_date no_serial (get (clean_row (lead (PStr ''03-Nov-25'') ''Qualified'')) ''Audit Date'') = Some (Date 2025 11 3)"
  by code_simp

lemma scenario_s6:
  "lead_status (clean_row (lead (PStr ''03-Nov-25'') ''Qualified'')) = ''qualified''"
  by code_simp

lemma scenario_d7:
  "parse_date no_serial (get (clean_row (lead (PDate (Date 2025 11 3)) ''Qualified'')) ''Audit Date'') = Some (Date 2025 11 3)"
  by code_simp

lemma scenario_s7:
  "lead_status (clean_row (lead (PDate (Date 2025 11 3)) ''Qualified'')) = ''qualified''"
  by code_simp

lemma scenario_d8:
  "parse_date no_serial (get (clean_row (lead (PStr ''2025-11-03'') ''Qualified'')) ''Audit Date'') = Some (Date 2025 11 3)"
  by code_simp

lemma scenario_s8:
  "lead_status (clean_row (lead (PStr ''2025-11-03'') ''Qualified'')) = ''qualified''"
  by code_simp

lemma scenario_d9:
  "parse_date no_serial (get (clean_row (lead (PStr ''03/11/2025'') ''Disqualified'')) ''Audit Date'') = Some (Date 2025 11 3)"
  by code_simp

lemma scenario_s9:
  "lead_status (clean_row (lead (PStr ''03/11/2025'') ''Disqualified'')) = ''disqualified''"
  by code_simp

lemmas scenario_facts = scenario_d0 scenario_s0 scenario_d1 scenario_s1 scenario_d2 scenario_s2 scenario_d3 scenario_s3 scenario_d4 scenario_s4 scenario_d5 scenario_s5 scenario_d6 scenario_s6 scenario_d7 scenario_s7 scenario_d8 scenario_s8 scenario_d9 scenario_s9

lemma scenario_parsed:
  "parsed_dates no_serial ''Audit Date'' (map clean_row scenario_store)
     = [Date 2025 11 6, Date 2025 11 6, Date 2025 11 6, Date 2025 11 6, Date 2025 11 6, Date 2025 11 6,
        Date 2025 11 3, Date 2025 11 3, Date 2025 11 3, Date 2025 11 3]"
  by (simp add: scenario_store_def parsed_dates_Cons scenario_facts)

lemma scenario_earliest:
  "Min (set [Date 2025 11 6, Date 2025 11 6, Date 2025 11 6, Date 2025 11 6, Date 2025 11 6,
             Date 2025 11 6, Date 2025 11 3, Date 2025 11 3, Date 2025 11 3, Date 2025 11 3])
     = Date 2025 11 3"
  by (simp add: min_def less_eq_date_def)

lemma scenario_mtd:
  "filter_records_mtd no_serial (Some ''Audit Date'') (map clean_row scenario_store) (Date 2025 11 6)
     = map clean_row scenario_store"
proof -
  have c: "''Audit Date'' \<noteq> []" by simp
  show ?thesis
    unfolding filter_records_mtd_eq[OF c] scenario_parsed scenario_earliest
    by (simp add: scenario_store_def scenario_facts first_day_of_month_def less_eq_date_def)
qed

lemma scenario_daily:
  "filter_records_by_date no_serial (Some ''Audit Date'') (map clean_row scenario_store) (Date 2025 11 6)
     = map clean_row (take 6 scenario_store)"
  by (simp add: filter_records_by_date_def column_unset_def record_date_def scenario_store_def
      scenario_facts)

lemma scenario_report_value:
  "scenario_report =
     [[PStr ''MTD PRE QA'', PStr ''MTD POST QA'', PStr ''PRE QA'', PStr ''POST QA''],
      [PInt 10, PInt 7, PInt 6, PInt 4]]"
proof -
  have l: "length scenario_store = 10" by (simp add: scenario_store_def)
  obtain h' cleaned where e: "clean_data scenario_store [0..<10] = (h', cleaned)"
    by (cases "clean_data scenario_store [0..<10]")
  have r: "rows_of h' cleaned = map clean_row scenario_store"
    using rows_of_clean_all[of scenario_store h' cleaned] e by (simp only: l)
  have "scenario_report =
          generate_combined_qa_report
            (filter_records_by_date no_serial (Some ''Audit Date'') (map clean_row scenario_store)
               (Date 2025 11 6))
            (filter_records_mtd no_serial (Some ''Audit Date'') (map clean_row scenario_store)
               (Date 2025 11 6))"
    by (simp only: scenario_report_def e Let_def prod.case r)
  also have "\<dots> = [[PStr ''MTD PRE QA'', PStr ''MTD POST QA'', PStr ''PRE QA'', PStr ''POST QA''],
                     [PInt 10, PInt 7, PInt 6, PInt 4]]"
    unfolding scenario_mtd scenario_daily
    by (simp add: generate_combined_qa_report_def scenario_store_def scenario_facts)
  finally show ?thesis .
qed

text \<open>
  C3. \<^verbatim>\<open>generate_combined_qa_report\<close> returns two rows: the header "MTD PRE QA",
  "MTD POST QA", "PRE QA", "POST QA", and the row of the number of month-to-date
  records, the number of them whose normalized Lead Status is "qualified", the number
  of records of the selected date, and the number of them whose normalized Lead Status
  is "qualified". In the end-to-end scenario the second row is 10, 7, 6, 4.
\<close>

theorem generate_combined_qa_report_rows:
  "generate_combined_qa_report date_records mtd_records =
     [[PStr ''MTD PRE QA'', PStr ''MTD POST QA'', PStr ''PRE QA'', PStr ''POST QA''],
      [PInt (int (length mtd_records)),
       PInt (int (length (filter (\<lambda>r. normalize (get_default r ''Lead Status'' (PStr []))
                                        = ''qualified'') mtd_records))),
       PInt (int (length date_records)),
       PInt (int (length (filter (\<lambda>r. normalize (get_default r ''Lead Status'' (PStr []))
                                        = ''qualified'') date_records)))]]
   \<and> scenario_report =
         [[PStr ''MTD PRE QA'', PStr ''MTD POST QA'', PStr ''PRE QA'', PStr ''POST QA''],
          [PInt 10, PInt 7, PInt 6, PInt 4]]"
  by (simp add: generate_combined_qa_report_def lead_status_def scenario_report_value)

section \<open>Row numbers of the sheet parser\<close>

text \<open>
  C9 asks for the position of a record's row in the original sheet. In the sheet
  below the only data row is the third row, after the header and an empty row; the
  parser drops the empty row before it numbers the rows, and gives the record the
  number 2.
\<close>

theorem parse_sheet_row_number_after_gap:
  "map (\<lambda>r. get r ''_row_number'') (snd (parse_sheet gap_sheet ''Qualified'')) = [PInt 2]
   \<and> gap_sheet ! 2 = [PStr ''Qualified'', PStr ''A'']
   \<and> map (\<lambda>r. get r ''Lead Status'') (snd (parse_sheet gap_sheet ''Qualified'')) = [PStr ''Qualified'']"
  by code_simp

section \<open>Counting loops\<close>

lemma lookup_Nil [simp]: "lookup [] k = 0"
  by (simp add: lookup_def)

lemma counter_add_keys:
  "map fst (counter_add k cnt) = (if k \<in> fst ` set cnt then map fst cnt else map fst cnt @ [k])"
  by (induction cnt) (force simp: image_iff)+

lemma counter_add_distinct:
  "distinct (map fst cnt) \<Longrightarrow> distinct (map fst (counter_add k cnt))"
  by (simp add: counter_add_keys)

lemma counter_add_lookup:
  "lookup (counter_add k cnt) k' = lookup cnt k' + (if k' = k then 1 else 0)"
  by (induction cnt) (auto simp: lookup_def)

lemma tally_Nil [simp]: "tally sel [] cnt = cnt"
  by (simp add: tally_def)

lemma tally_Cons:
  "tally sel (r # rs) cnt =
     tally sel rs (case sel r of None \<Rightarrow> cnt | Some k \<Rightarrow> counter_add k cnt)"
  by (simp add: tally_def)

lemma tally_distinct:
  "distinct (map fst cnt) \<Longrightarrow> distinct (map fst (tally sel rs cnt))"
  by (induction rs arbitrary: cnt)
     (auto simp: tally_Cons counter_add_distinct split: option.splits)

lemma tally_lookup:
  "lookup (tally sel rs cnt) k = lookup cnt k + length (filter (\<lambda>r. sel r = Some k) rs)"
  by (induction rs arbitrary: cnt)
     (auto simp: tally_Cons counter_add_lookup split: option.splits)

lemma tally_keys:
  "fst ` set (tally sel rs cnt) = fst ` set cnt \<union> {k. \<exists>r \<in> set rs. sel r = Some k}"
proof (induction rs arbitrary: cnt)
  case Nil
  then show ?case by simp
next
  case (Cons r rs)
  have k: "fst ` set (counter_add k cnt) = insert k (fst ` set cnt)" for k
    using counter_add_keys[of k cnt] by (metis (no_types, lifting) insert_absorb list.set_map
        set_append list.simps(15) Un_insert_right sup_bot.right_neutral empty_set)
  show ?case
    by (cases "sel r") (auto simp: tally_Cons Cons.IH k)
qed

lemma lookup_entry:
  "distinct (map fst cnt) \<Longrightarrow> (k, n) \<in> set cnt \<Longrightarrow> lookup cnt k = n"
  by (simp add: lookup_def)

lemma tally_entry:
  assumes "(k, n) \<in> set (tally sel rs [])"
  shows "n = length (filter (\<lambda>r. sel r = Some k) rs)"
proof -
  have "distinct (map fst (tally sel rs []))" by (rule tally_distinct) simp
  from lookup_entry[OF this assms] show ?thesis by (simp add: tally_lookup)
qed

lemma reason_loop_tally:
  "reason_loop records cnt =
     tally (\<lambda>r. if lead_status r = ''disqualified''
                 then Some (get_default r ''DQ Reason'' (PStr ''(Blank)'')) else None) records cnt"
  by (induction records arbitrary: cnt) (simp_all add: tally_Cons)

lemma status_counts_tally:
  "status_counts records cnt =
     tally (\<lambda>r. if get r ''Lead Status'' \<noteq> PNone then Some (get r ''Lead Status'') else None)
       records cnt"
  by (induction records arbitrary: cnt) (simp_all add: tally_Cons Let_def)

lemma tag_loop_tally:
  "tag_loop column records cnt =
     tally (\<lambda>r. if lead_status r = ''qualified'' then Some (tag_of column r) else None) records cnt"
  by (induction records arbitrary: cnt) (simp_all add: tally_Cons)

lemma butlast_with_total:
  "butlast (if rows \<noteq> [] then rows @ [t] else rows) = rows"
  by simp

lemma last_with_total:
  "rows \<noteq> [] \<Longrightarrow> last (if rows \<noteq> [] then rows @ [t] else rows) = t"
  by simp

lemma sort_desc_Nil [simp]: "sort_desc key [] = []"
  by (simp add: sort_desc_def)

lemma sort_desc_set [simp]: "set (sort_desc key xs) = set xs"
  by (simp add: sort_desc_def)

lemma sort_desc_Nil_iff [simp]: "sort_desc key xs = [] \<longleftrightarrow> xs = []"
  by (metis sort_desc_set set_empty)

lemma sort_desc_sorted: "sorted_wrt (\<lambda>a b. key b \<le> key a) (sort_desc key xs)"
proof -
  have "sorted (map (\<lambda>x. - key x) (sort_key (\<lambda>x. - key x) xs))" by (rule sorted_sort_key)
  then show ?thesis by (simp add: sort_desc_def sorted_map)
qed

lemma sort_desc_distinct: "distinct (map f (sort_desc key xs)) = distinct (map f xs)"
  by (simp add: sort_desc_def distinct_map)

section \<open>The disqualification reason report\<close>

lemma reason_rows_data:
  "butlast (reason_rows records)
     = sort_desc rr_error (map (reason_row_of (length records)) (reason_loop records []))"
  by (simp add: reason_rows_def Let_def)

lemma reason_rows_last:
  "reason_rows records \<noteq> [] \<Longrightarrow>
     last (reason_rows records) = reason_grand_total (length records) (butlast (reason_rows records))"
  by (simp add: reason_rows_def Let_def split: if_splits)

lemma reason_row_count:
  assumes "row \<in> set (butlast (reason_rows records))"
  shows "rr_count row =
           length (filter (\<lambda>r. lead_status r = ''disqualified''
                               \<and> get_default r ''DQ Reason'' (PStr ''(Blank)'') = rr_reason row) records)
         \<and> rr_error row = of_nat (rr_count row) / of_nat (length records)"
proof -
  from assms obtain k n where kn: "(k, n) \<in> set (reason_loop records [])"
    and row: "row = reason_row_of (length records) (k, n)"
    by (auto simp: reason_rows_data)
  have "n = length (filter (\<lambda>r. (if lead_status r = ''disqualified''
                 then Some (get_default r ''DQ Reason'' (PStr ''(Blank)'')) else None) = Some k) records)"
    using kn unfolding reason_loop_tally by (rule tally_entry)
  also have "\<dots> = length (filter (\<lambda>r. lead_status r = ''disqualified''
                               \<and> get_default r ''DQ Reason'' (PStr ''(Blank)'') = k) records)"
    by (rule arg_cong[where f = length], rule filter_cong) auto
  finally show ?thesis by (simp add: row reason_row_of_def)
qed

lemma reason_rows_distinct: "distinct (map rr_reason (butlast (reason_rows records)))"
proof -
  have "distinct (map fst (reason_loop records []))"
    unfolding reason_loop_tally by (rule tally_distinct) simp
  moreover have "map rr_reason (map (reason_row_of (length records)) (reason_loop records []))
                 = map fst (reason_loop records [])"
    by (simp add: reason_row_of_def comp_def)
  ultimately show ?thesis by (simp only: reason_rows_data sort_desc_distinct)
qed

text \<open>
  C8. In the reason report every reason row counts the records whose normalized status
  is "disqualified" and whose DQ Reason ("(Blank)" when the record has none) is the
  reason of the row; no reason has two rows. The rate of the row is that count divided
  by the number of all records given to the report, whatever their status. The reason
  rows are in the order of falling rates. The Grand Total row has the sum of the counts
  of the reason rows and that sum divided by the same number of records.
\<close>

theorem dq_reason_rows_spec:
  "(\<forall>row \<in> set (butlast (reason_rows records)).
       rr_count row =
         length (filter (\<lambda>r. normalize (get_default r ''Lead Status'' (PStr [])) = ''disqualified''
                             \<and> get_default r ''DQ Reason'' (PStr ''(Blank)'') = rr_reason row) records)
       \<and> rr_error row = of_nat (rr_count row) / of_nat (length records))
   \<and> distinct (map rr_reason (butlast (reason_rows records)))
   \<and> sorted_wrt (\<lambda>a b. rr_error b \<le> rr_error a) (butlast (reason_rows records))
   \<and> (reason_rows records \<noteq> [] \<longrightarrow>
        rr_reason (last (reason_rows records)) = PStr ''Grand Total''
        \<and> rr_count (last (reason_rows records))
            = sum_list (map rr_count (butlast (reason_rows records)))
        \<and> rr_error (last (reason_rows records))
            = of_nat (sum_list (map rr_count (butlast (reason_rows records))))
              / of_nat (length records))
   \<and> generate_dq_reason_report percent records =
        [PStr ''DQ Reason'', PStr ''Disqualified'', PStr ''Error%'']
        # map (\<lambda>row. [rr_reason row, PInt (int (rr_count row)), PStr (percent (rr_error row))])
              (reason_rows records)"
proof (intro conjI ballI impI)
  fix row assume "row \<in> set (butlast (reason_rows records))"
  from reason_row_count[OF this]
  show "rr_count row =
         length (filter (\<lambda>r. normalize (get_default r ''Lead Status'' (PStr [])) = ''disqualified''
                             \<and> get_default r ''DQ Reason'' (PStr ''(Blank)'') = rr_reason row) records)"
    and "rr_error row = of_nat (rr_count row) / of_nat (length records)"
    by (simp_all add: lead_status_def)
next
  show "distinct (map rr_reason (butlast (reason_rows records)))"
    by (rule reason_rows_distinct)
  show "sorted_wrt (\<lambda>a b. rr_error b \<le> rr_error a) (butlast (reason_rows records))"
    by (simp only: reason_rows_data sort_desc_sorted)
  show "generate_dq_reason_report percent records =
        [PStr ''DQ Reason'', PStr ''Disqualified'', PStr ''Error%'']
        # map (\<lambda>row. [rr_reason row, PInt (int (rr_count row)), PStr (percent (rr_error row))])
              (reason_rows records)"
    by (simp add: generate_dq_reason_report_def reason_display_def)
next
  assume ne: "reason_rows records \<noteq> []"
  note l = reason_rows_last[OF ne]
  show "rr_reason (last (reason_rows records)) = PStr ''Grand Total''"
    by (simp add: l reason_grand_total_def Let_def)
  show "rr_count (last (reason_rows records))
            = sum_list (map rr_count (butlast (reason_rows records)))"
    by (simp add: l reason_grand_total_def Let_def)
  show "rr_error (last (reason_rows records))
            = of_nat (sum_list (map rr_count (butlast (reason_rows records))))
              / of_nat (length records)"
    by (simp add: l reason_grand_total_def Let_def)
qed

lemma report_example_reasons:
  "reason_rows report_example =
     [\<lparr>rr_reason = PStr ''Invalid Email'', rr_count = 2, rr_error = 1 / 3\<rparr>,
      \<lparr>rr_reason = PStr ''Invalid Phone Number'', rr_count = 1, rr_error = 1 / 6\<rparr>,
      \<lparr>rr_reason = PStr ''Grand Total'', rr_count = 3, rr_error = 1 / 2\<rparr>]"
  by code_simp

theorem dq_reason_rows_spec_witness:
  "reason_rows report_example \<noteq> []
   \<and> rr_count \<lparr>rr_reason = PStr ''Invalid Email'', rr_count = 2, rr_error = 1 / 3\<rparr> =
       length (filter (\<lambda>r. normalize (get_default r ''Lead Status'' (PStr [])) = ''disqualified''
                           \<and> get_default r ''DQ Reason'' (PStr ''(Blank)'')
                             = rr_reason \<lparr>rr_reason = PStr ''Invalid Email'', rr_count = 2,
                                          rr_error = 1 / 3\<rparr>) report_example)
   \<and> rr_error \<lparr>rr_reason = PStr ''Invalid Email'', rr_count = 2, rr_error = 1 / 3\<rparr>
       = of_nat (rr_count \<lparr>rr_reason = PStr ''Invalid Email'', rr_count = 2, rr_error = 1 / 3\<rparr>)
         / of_nat (length report_example)
   \<and> rr_count (last (reason_rows report_example))
       = sum_list (map rr_count (butlast (reason_rows report_example)))
   \<and> rr_error (last (reason_rows report_example))
       = of_nat (sum_list (map rr_count (butlast (reason_rows report_example))))
         / of_nat (length report_example)
   \<and> rr_error (last (reason_rows report_example)) = 1 / 2"
proof -
  have ne: "reason_rows report_example \<noteq> []"
    by (simp add: report_example_reasons)
  have m: "\<lparr>rr_reason = PStr ''Invalid Email'', rr_count = 2, rr_error = 1 / 3\<rparr>
           \<in> set (butlast (reason_rows report_example))"
    by (simp add: report_example_reasons)
  note T = dq_reason_rows_spec[of report_example percent_stub]
  note r = T[THEN conjunct1, THEN bspec, OF m]
  note g = T[THEN conjunct2, THEN conjunct2, THEN conjunct2, THEN conjunct1, THEN mp, OF ne]
  have half: "rr_error (last (reason_rows report_example)) = 1 / 2"
    by (simp add: report_example_reasons)
  show ?thesis
    by (intro conjI) (rule ne r[THEN conjunct1] r[THEN conjunct2]
        g[THEN conjunct2, THEN conjunct1] g[THEN conjunct2, THEN conjunct2] half)+
qed

section \<open>Grand Total rows\<close>

lemma agent_rows_data:
  "butlast (agent_rows records) = sort_desc ar_error (map agent_row_of (agent_loop records []))"
  by (simp add: agent_rows_def Let_def)

lemma agent_rows_last:
  "agent_rows records \<noteq> [] \<Longrightarrow>
     last (agent_rows records) = agent_grand_total (butlast (agent_rows records))"
  by (simp add: agent_rows_def Let_def split: if_splits)

lemma agent_rows_data_nonempty:
  "agent_rows records \<noteq> [] \<Longrightarrow> butlast (agent_rows records) \<noteq> []"
  by (simp add: agent_rows_def Let_def split: if_splits)

lemma agent_row_total:
  "row \<in> set (butlast (agent_rows records)) \<Longrightarrow>
     ar_total row = ar_qualified row + ar_disqualified row"
  by (auto simp: agent_rows_data agent_row_of_def Let_def)

lemma sum_totals:
  "\<forall>row \<in> set rows. ar_total row = ar_qualified row + ar_disqualified row \<Longrightarrow>
     sum_list (map ar_total rows)
       = sum_list (map ar_qualified rows) + sum_list (map ar_disqualified rows)"
  by (induction rows) simp_all

lemma tag_rows_data:
  "butlast (tag_rows column records) = most_common (tag_loop column records [])"
  by (simp add: tag_rows_def Let_def)

lemma tag_rows_last:
  "tag_rows column records \<noteq> [] \<Longrightarrow>
     last (tag_rows column records)
       = (''Grand Total'', sum_list (map snd (butlast (tag_rows column records))))"
  by (simp add: tag_rows_def Let_def split: if_splits)

lemma rate_total:
  "(if (t::nat) > 0 then of_nat d / of_nat t else (0::rat)) = of_nat d / of_nat t"
  by simp

lemma last_report: "rows \<noteq> [] \<Longrightarrow> last (header # map f rows) = f (last rows)"
  by (simp add: last_map)

text \<open>
  C4. Whenever a report has data rows, its last row is the Grand Total row, and every
  count of that row is the sum of the same column over the data rows above it. In the
  agent report the rate of the Grand Total row is the summed disqualified count divided
  by the summed qualified and disqualified counts; in the reason report it is the
  summed count divided by the number of records; neither is an average of the rates of
  the rows. The two tag reports, of segments and of personas, have a single count
  column. The agent rows A 2 3 5 0.40 and B 1 4 5 0.20 give the Grand Total 3 7 10 0.30.
\<close>

theorem grand_total_rows:
  "(agent_rows records \<noteq> [] \<longrightarrow>
      butlast (agent_rows records) \<noteq> []
      \<and> last (generate_agent_breakdown_report percent records) =
          [PStr ''Grand Total'',
           PInt (int (sum_list (map ar_disqualified (butlast (agent_rows records))))),
           PInt (int (sum_list (map ar_qualified (butlast (agent_rows records))))),
           PInt (int (sum_list (map ar_total (butlast (agent_rows records))))),
           PStr (percent
             (of_nat (sum_list (map ar_disqualified (butlast (agent_rows records))))
              / of_nat (sum_list (map ar_qualified (butlast (agent_rows records)))
                        + sum_list (map ar_disqualified (butlast (agent_rows records))))))])
   \<and> (reason_rows records \<noteq> [] \<longrightarrow>
      last (generate_dq_reason_report percent records) =
          [PStr ''Grand Total'',
           PInt (int (sum_list (map rr_count (butlast (reason_rows records))))),
           PStr (percent
             (of_nat (sum_list (map rr_count (butlast (reason_rows records))))
              / of_nat (length records)))])
   \<and> (tag_rows ''Segment Tagging'' records \<noteq> [] \<longrightarrow>
      last (generate_segment_wise_report records) =
          [PStr ''Grand Total'',
           PInt (int (sum_list (map snd (butlast (tag_rows ''Segment Tagging'' records)))))])
   \<and> (tag_rows ''JT Persona Tagging'' records \<noteq> [] \<longrightarrow>
      last (generate_jt_persona_wise_report records) =
          [PStr ''Grand Total'',
           PInt (int (sum_list (map snd (butlast (tag_rows ''JT Persona Tagging'' records)))))])
   \<and> agent_grand_total [row_A, row_B] =
        \<lparr>ar_agent = PStr ''Grand Total'', ar_disqualified = 3, ar_qualified = 7, ar_total = 10,
         ar_error = 3 / 10\<rparr>"
proof (intro conjI impI)
  assume ne: "agent_rows records \<noteq> []"
  show "butlast (agent_rows records) \<noteq> []"
    by (rule agent_rows_data_nonempty[OF ne])
  have t: "sum_list (map ar_total (butlast (agent_rows records)))
           = sum_list (map ar_qualified (butlast (agent_rows records)))
             + sum_list (map ar_disqualified (butlast (agent_rows records)))"
    by (rule sum_totals) (simp add: agent_row_total)
  have "last (generate_agent_breakdown_report percent records)
        = agent_display percent (agent_grand_total (butlast (agent_rows records)))"
    by (simp only: generate_agent_breakdown_report_def last_report[OF ne] agent_rows_last[OF ne])
  also have "\<dots> = [PStr ''Grand Total'',
           PInt (int (sum_list (map ar_disqualified (butlast (agent_rows records))))),
           PInt (int (sum_list (map ar_qualified (butlast (agent_rows records))))),
           PInt (int (sum_list (map ar_total (butlast (agent_rows records))))),
           PStr (percent
             (of_nat (sum_list (map ar_disqualified (butlast (agent_rows records))))
              / of_nat (sum_list (map ar_total (butlast (agent_rows records))))))]"
    unfolding agent_grand_total_def Let_def rate_total by (simp add: agent_display_def)
  finally show "last (generate_agent_breakdown_report percent records) =
          [PStr ''Grand Total'',
           PInt (int (sum_list (map ar_disqualified (butlast (agent_rows records))))),
           PInt (int (sum_list (map ar_qualified (butlast (agent_rows records))))),
           PInt (int (sum_list (map ar_total (butlast (agent_rows records))))),
           PStr (percent
             (of_nat (sum_list (map ar_disqualified (butlast (agent_rows records))))
              / of_nat (sum_list (map ar_qualified (butlast (agent_rows records)))
                        + sum_list (map ar_disqualified (butlast (agent_rows records))))))]"
    by (simp only: t)
next
  assume ne: "reason_rows records \<noteq> []"
  have "last (generate_dq_reason_report percent records)
        = reason_display percent (reason_grand_total (length records) (butlast (reason_rows records)))"
    by (simp only: generate_dq_reason_report_def last_report[OF ne] reason_rows_last[OF ne])
  then show "last (generate_dq_reason_report percent records) =
          [PStr ''Grand Total'',
           PInt (int (sum_list (map rr_count (butlast (reason_rows records))))),
           PStr (percent
             (of_nat (sum_list (map rr_count (butlast (reason_rows records))))
              / of_nat (length records)))]"
    unfolding reason_grand_total_def Let_def rate_total by (simp add: reason_display_def)
next
  assume ne: "tag_rows ''Segment Tagging'' records \<noteq> []"
  have "last (generate_segment_wise_report records)
        = tag_display (''Grand Total'', sum_list (map snd (butlast (tag_rows ''Segment Tagging'' records))))"
    by (simp only: generate_segment_wise_report_def last_report[OF ne] tag_rows_last[OF ne])
  then show "last (generate_segment_wise_report records) =
          [PStr ''Grand Total'',
           PInt (int (sum_list (map snd (butlast (tag_rows ''Segment Tagging'' records)))))]"
    by (simp add: tag_display_def)
next
  assume ne: "tag_rows ''JT Persona Tagging'' records \<noteq> []"
  have "last (generate_jt_persona_wise_report records)
        = tag_display (''Grand Total'', sum_list (map snd (butlast (tag_rows ''JT Persona Tagging'' records))))"
    by (simp only: generate_jt_persona_wise_report_def last_report[OF ne] tag_rows_last[OF ne])
  then show "last (generate_jt_persona_wise_report records) =
          [PStr ''Grand Total'',
           PInt (int (sum_list (map snd (butlast (tag_rows ''JT Persona Tagging'' records)))))]"
    by (simp add: tag_display_def)
next
  show "agent_grand_total [row_A, row_B] =
        \<lparr>ar_agent = PStr ''Grand Total'', ar_disqualified = 3, ar_qualified = 7, ar_total = 10,
         ar_error = 3 / 10\<rparr>"
    by (simp add: agent_grand_total_def row_A_def row_B_def)
qed

lemma report_example_agents:
  "agent_rows report_example =
     [\<lparr>ar_agent = PStr ''A'', ar_disqualified = 2, ar_qualified = 1, ar_total = 3, ar_error = 2 / 3\<rparr>,
      \<lparr>ar_agent = PStr ''B'', ar_disqualified = 1, ar_qualified = 1, ar_total = 2, ar_error = 1 / 2\<rparr>,
      \<lparr>ar_agent = PStr ''Grand Total'', ar_disqualified = 3, ar_qualified = 2, ar_total = 5,
        ar_error = 3 / 5\<rparr>]"
  by code_simp

lemma report_example_segments:
  "tag_rows ''Segment Tagging'' report_example = [(''(Blank)'', 2), (''Grand Total'', 2)]"
  by code_simp

lemma report_example_personas:
  "tag_rows ''JT Persona Tagging'' report_example = [(''(Blank)'', 2), (''Grand Total'', 2)]"
  by code_simp

theorem grand_total_rows_witness:
  "agent_rows report_example \<noteq> []
   \<and> last (generate_agent_breakdown_report percent_stub report_example)
       = [PStr ''Grand Total'', PInt 3, PInt 2, PInt 5, PStr (percent_stub (3 / 5))]
   \<and> reason_rows report_example \<noteq> []
   \<and> last (generate_dq_reason_report percent_stub report_example)
       = [PStr ''Grand Total'', PInt 3, PStr (percent_stub (1 / 2))]
   \<and> tag_rows ''Segment Tagging'' report_example \<noteq> []
   \<and> last (generate_segment_wise_report report_example) = [PStr ''Grand Total'', PInt 2]
   \<and> tag_rows ''JT Persona Tagging'' report_example \<noteq> []
   \<and> last (generate_jt_persona_wise_report report_example) = [PStr ''Grand Total'', PInt 2]"
proof -
  have n1: "agent_rows report_example \<noteq> []" by (simp add: report_example_agents)
  have n2: "reason_rows report_example \<noteq> []" by (simp add: report_example_reasons)
  have n3: "tag_rows ''Segment Tagging'' report_example \<noteq> []"
    by (simp add: report_example_segments)
  have n4: "tag_rows ''JT Persona Tagging'' report_example \<noteq> []"
    by (simp add: report_example_personas)
  have l: "length report_example = 6" by (simp add: report_example_def)
  note T = grand_total_rows[of report_example percent_stub]
  note g1 = T[THEN conjunct1, THEN mp, OF n1, THEN conjunct2]
  note g2 = T[THEN conjunct2, THEN conjunct1, THEN mp, OF n2]
  note g3 = T[THEN conjunct2, THEN conjunct2, THEN conjunct1, THEN mp, OF n3]
  note g4 = T[THEN conjunct2, THEN conjunct2, THEN conjunct2, THEN conjunct1, THEN mp, OF n4]
  have w1: "last (generate_agent_breakdown_report percent_stub report_example)
       = [PStr ''Grand Total'', PInt 3, PInt 2, PInt 5, PStr (percent_stub (3 / 5))]"
    using g1 by (simp add: report_example_agents)
  have w2: "last (generate_dq_reason_report percent_stub report_example)
       = [PStr ''Grand Total'', PInt 3, PStr (percent_stub (1 / 2))]"
    using g2 by (simp add: report_example_reasons l)
  have w3: "last (generate_segment_wise_report report_example) = [PStr ''Grand Total'', PInt 2]"
    using g3 by (simp add: report_example_segments)
  have w4: "last (generate_jt_persona_wise_report report_example) = [PStr ''Grand Total'', PInt 2]"
    using g4 by (simp add: report_example_personas)
  show ?thesis
    by (intro conjI) (rule n1 n2 n3 n4 w1 w2 w3 w4)+
qed

section \<open>Lead Status issues\<close>

lemma isspace_to_lower [simp]: "isspace (to_lower c) = isspace c"
proof (cases "isupper c")
  case True
  then have "65 \<le> (of_char c :: nat)" "(of_char c :: nat) \<le> 90"
    by (simp_all add: isupper_def ord_def Let_def)
  then show ?thesis
    by (simp add: isspace_def to_lower_def True ord_def Let_def)
next
  case False
  then show ?thesis by (simp add: to_lower_def)
qed

lemma strip_lower: "strip (lower s) = lower (strip s)"
proof -
  have c: "isspace \<circ> to_lower = isspace" by (rule ext) simp
  have l: "lstrip (lower s) = lower (lstrip s)" for s
    by (simp add: lstrip_def lower_def dropWhile_map c)
  have r: "rstrip (lower s) = lower (rstrip s)" for s
    by (simp add: rstrip_def lower_def dropWhile_map c rev_map)
  show ?thesis by (simp add: strip_def l r)
qed

lemma matches_blank:
  "\<not> matches_any qualified_patterns [] \<and> \<not> matches_any disqualified_patterns []"
  by (simp add: matches_any_def qualified_patterns_def disqualified_patterns_def startswith_def)

lemma suggestion_rule_patterns:
  "suggestion_rule status =
     (let s = strip (lower (py_str status))
      in if matches_any qualified_patterns s then Some (PStr ''Qualified'')
         else if matches_any disqualified_patterns s then Some (PStr ''Disqualified'')
         else None)"
  by (simp add: suggestion_rule_def qualified_patterns_def disqualified_patterns_def Let_def)

lemma suggestion_falsy:
  "suggestion_rule PNone = None" "suggestion_rule (PStr []) = None" "suggestion_rule (PInt 0) = None"
  by code_simp+

lemma suggestion_not_truthy: "\<not> truthy status \<Longrightarrow> suggestion_rule status = None"
  by (cases status) (simp_all add: suggestion_falsy)

lemma suggestion_blank:
  assumes "strip (py_str status) = []"
  shows "suggestion_rule status = None"
proof -
  have "strip (lower (py_str status)) = lower []"
    by (simp only: strip_lower assms)
  then have "strip (lower (py_str status)) = []"
    by (simp add: lower_def)
  then show ?thesis
    using matches_blank by (simp add: suggestion_rule_patterns Let_def)
qed

lemma accepted_values:
  "PStr ''Qualified'' \<in> PStr ` set ACCEPTED_LEAD_STATUS"
  "PStr ''Disqualified'' \<in> PStr ` set ACCEPTED_LEAD_STATUS"
  by (simp_all add: ACCEPTED_LEAD_STATUS_def)

lemma make_issue_suggestion:
  assumes "status \<notin> PStr ` set ACCEPTED_LEAD_STATUS"
  shows "auto_suggestion (make_issue ratio valid_list status cnt) = suggestion_rule status"
proof (cases "\<not> truthy status \<or> strip (py_str status) = []")
  case True
  then have "suggestion_rule status = None"
    using suggestion_not_truthy suggestion_blank by blast
  moreover from True have "normalize_lead_status status = status"
    by (auto simp: normalize_lead_status_def)
  ultimately show ?thesis by (simp add: make_issue_def)
next
  case False
  from assms accepted_values have ne: "PStr ''Qualified'' \<noteq> status" "PStr ''Disqualified'' \<noteq> status"
    by auto
  from False show ?thesis
    using ne accepted_values assms
    by (simp add: make_issue_def normalize_lead_status_def suggestion_rule_patterns
        matches_any_def Let_def)
qed

lemma get_close_matches_props:
  "length (get_close_matches ratio word possibilities n cutoff) \<le> n
   \<and> set (get_close_matches ratio word possibilities n cutoff)
       \<subseteq> {x \<in> set possibilities. cutoff \<le> ratio x word}"
proof
  show "length (get_close_matches ratio word possibilities n cutoff) \<le> n"
    by (simp add: get_close_matches_def)
  have "set (take n (rev (sort (map (\<lambda>x. (ratio x word, x))
                (filter (\<lambda>x. cutoff \<le> ratio x word) possibilities)))))
        \<subseteq> set (map (\<lambda>x. (ratio x word, x)) (filter (\<lambda>x. cutoff \<le> ratio x word) possibilities))"
    using set_take_subset[of n "rev (sort (map (\<lambda>x. (ratio x word, x))
                (filter (\<lambda>x. cutoff \<le> ratio x word) possibilities)))"]
    by simp
  then show "set (get_close_matches ratio word possibilities n cutoff)
       \<subseteq> {x \<in> set possibilities. cutoff \<le> ratio x word}"
    unfolding get_close_matches_def by auto
qed

lemma issues_loop_map:
  "issues_loop ratio valid_list items =
     map (\<lambda>item. make_issue ratio valid_list (fst item) (snd item))
         (filter (\<lambda>item. fst item \<notin> PStr ` set ACCEPTED_LEAD_STATUS) items)"
  by (induction items) auto

lemma original_make_issue [simp]: "original (make_issue ratio valid_list status cnt) = status"
  and count_make_issue [simp]: "count (make_issue ratio valid_list status cnt) = cnt"
  and fuzzy_make_issue:
    "fuzzy_matches (make_issue ratio valid_list status cnt)
       = get_close_matches ratio (py_str status) valid_list 2 (6 / 10)"
  and options_make_issue [simp]: "valid_options (make_issue ratio valid_list status cnt) = valid_list"
  by (simp_all add: make_issue_def Let_def)

lemma status_entry:
  assumes "(k, n) \<in> set (status_counts records [])"
  shows "k \<noteq> PNone" and "\<exists>r \<in> set records. get r ''Lead Status'' = k"
    and "n = length (filter (\<lambda>r. get r ''Lead Status'' = k) records)"
proof -
  let ?sel = "\<lambda>r. if get r ''Lead Status'' \<noteq> PNone then Some (get r ''Lead Status'') else None"
  from assms have m: "(k, n) \<in> set (tally ?sel records [])"
    by (simp only: status_counts_tally)
  then have "k \<in> fst ` set (tally ?sel records [])" by force
  then obtain r where r: "r \<in> set records" "?sel r = Some k"
    by (auto simp: tally_keys)
  then show k: "k \<noteq> PNone" by (auto split: if_splits)
  from r show "\<exists>r \<in> set records. get r ''Lead Status'' = k" by (auto split: if_splits)
  have "n = length (filter (\<lambda>r. ?sel r = Some k) records)"
    using m by (rule tally_entry)
  also have "\<dots> = length (filter (\<lambda>r. get r ''Lead Status'' = k) records)"
    using k by (intro arg_cong[where f = length] filter_cong) auto
  finally show "n = length (filter (\<lambda>r. get r ''Lead Status'' = k) records)" .
qed

lemma status_keys:
  "fst ` set (status_counts records [])
     = {s. s \<noteq> PNone \<and> (\<exists>r \<in> set records. get r ''Lead Status'' = s)}"
  by (auto simp: status_counts_tally tally_keys split: if_splits)

lemma status_distinct: "distinct (map fst (status_counts records []))"
  unfolding status_counts_tally by (rule tally_distinct) simp

lemma issues_originals:
  "map original (fst (find_lead_status_issues ratio valid_list records))
     = filter (\<lambda>s. s \<notin> PStr ` set ACCEPTED_LEAD_STATUS) (map fst (status_counts records []))"
  by (simp add: find_lead_status_issues_def Let_def issues_loop_map filter_map comp_def)

text \<open>
  C5. \<^verbatim>\<open>find_lead_status_issues\<close> reports one issue for every distinct Lead Status
  value (other than \<open>None\<close>) that is not, as it stands, one of the accepted values. The
  issue has the number of records with exactly that value, at most two fuzzy
  suggestions, each an accepted value whose similarity to the text of the value is at
  least 0.6, and the suggestion of the pattern rule: "Qualified" when the trimmed
  lower-case text equals or starts with qualified, qualify, qual or q, "Disqualified"
  when it equals or starts with disqualified, disqualify, disqual, dq or dis, none
  otherwise. "Qual" gets "Qualified" and "Disposed" gets "Disqualified".
  \<open>valid_list\<close> lists the accepted values in the order of the set made of them.
\<close>

theorem find_lead_status_issues_spec:
  assumes "set valid_list = set ACCEPTED_LEAD_STATUS"
  shows "distinct (map original (fst (find_lead_status_issues ratio valid_list records)))
   \<and> set (map original (fst (find_lead_status_issues ratio valid_list records)))
       = {s. s \<noteq> PNone \<and> s \<notin> PStr ` {''Qualified'', ''Disqualified''}
             \<and> (\<exists>r \<in> set records. get r ''Lead Status'' = s)}
   \<and> (\<forall>i \<in> set (fst (find_lead_status_issues ratio valid_list records)).
         count i = length (filter (\<lambda>r. get r ''Lead Status'' = original i) records)
         \<and> length (fuzzy_matches i) \<le> 2
         \<and> set (fuzzy_matches i) \<subseteq> {''Qualified'', ''Disqualified''}
         \<and> (\<forall>x \<in> set (fuzzy_matches i). 6 / 10 \<le> ratio x (py_str (original i)))
         \<and> auto_suggestion i = suggestion_rule (original i))
   \<and> suggestion_rule (PStr ''Qual'') = Some (PStr ''Qualified'')
   \<and> suggestion_rule (PStr ''Disposed'') = Some (PStr ''Disqualified'')"
proof (intro conjI ballI)
  have acc: "set ACCEPTED_LEAD_STATUS = {''Qualified'', ''Disqualified''}"
    by (simp add: ACCEPTED_LEAD_STATUS_def)
  show "distinct (map original (fst (find_lead_status_issues ratio valid_list records)))"
    by (simp only: issues_originals) (rule distinct_filter[OF status_distinct])
  show "set (map original (fst (find_lead_status_issues ratio valid_list records)))
       = {s. s \<noteq> PNone \<and> s \<notin> PStr ` {''Qualified'', ''Disqualified''}
             \<and> (\<exists>r \<in> set records. get r ''Lead Status'' = s)}"
    unfolding issues_originals acc[symmetric]
    using status_keys[of records] by auto
  show "suggestion_rule (PStr ''Qual'') = Some (PStr ''Qualified'')" by code_simp
  show "suggestion_rule (PStr ''Disposed'') = Some (PStr ''Disqualified'')" by code_simp
  fix i assume "i \<in> set (fst (find_lead_status_issues ratio valid_list records))"
  then obtain k n where kn: "(k, n) \<in> set (status_counts records [])"
    and bad: "k \<notin> PStr ` set ACCEPTED_LEAD_STATUS"
    and i: "i = make_issue ratio valid_list k n"
    by (auto simp: find_lead_status_issues_def Let_def issues_loop_map)
  show "count i = length (filter (\<lambda>r. get r ''Lead Status'' = original i) records)"
    using status_entry(3)[OF kn] by (simp add: i)
  note g = get_close_matches_props[of ratio "py_str k" valid_list 2 "6 / 10"]
  show "length (fuzzy_matches i) \<le> 2"
    using g by (simp add: i fuzzy_make_issue)
  show "set (fuzzy_matches i) \<subseteq> {''Qualified'', ''Disqualified''}"
    using g assms by (auto simp: i fuzzy_make_issue acc)
  show "6 / 10 \<le> ratio x (py_str (original i))" if "x \<in> set (fuzzy_matches i)" for x
    using g that by (auto simp: i fuzzy_make_issue)
  show "auto_suggestion i = suggestion_rule (original i)"
    using make_issue_suggestion[OF bad] by (simp add: i)
qed

lemma qual_store_issues:
  "fst (find_lead_status_issues ratio_stub [''Disqualified'', ''Qualified''] qual_store) = [qual_issue]"
  by code_simp

theorem find_lead_status_issues_spec_witness:
  "set [''Disqualified'', ''Qualified''] = set ACCEPTED_LEAD_STATUS
   \<and> fst (find_lead_status_issues ratio_stub [''Disqualified'', ''Qualified''] qual_store) = [qual_issue]
   \<and> count qual_issue = length (filter (\<lambda>r. get r ''Lead Status'' = original qual_issue) qual_store)
   \<and> length (fuzzy_matches qual_issue) \<le> 2
   \<and> auto_suggestion qual_issue = suggestion_rule (original qual_issue)
   \<and> count qual_issue = 5
   \<and> auto_suggestion qual_issue = Some (PStr ''Qualified'')"
proof -
  have a: "set [''Disqualified'', ''Qualified''] = set ACCEPTED_LEAD_STATUS"
    by (auto simp: ACCEPTED_LEAD_STATUS_def)
  have m: "qual_issue \<in> set (fst (find_lead_status_issues ratio_stub [''Disqualified'', ''Qualified'']
                                    qual_store))"
    by (simp add: qual_store_issues)
  note T = find_lead_status_issues_spec[OF a, of ratio_stub qual_store]
  note I = T[THEN conjunct2, THEN conjunct2, THEN conjunct1, THEN bspec, OF m]
  have five: "count qual_issue = 5" and s: "auto_suggestion qual_issue = Some (PStr ''Qualified'')"
    by (simp_all add: qual_issue_def)
  show ?thesis
    by (intro conjI) (rule a qual_store_issues I[THEN conjunct1]
        I[THEN conjunct2, THEN conjunct1]
        I[THEN conjunct2, THEN conjunct2, THEN conjunct2, THEN conjunct2] five s)+
qed

end
